theory Spec2Isabelle
  imports Main "HOL-Library.Multiset"
begin

section \<open>Data model (types/index.ts)\<close>

text \<open>
  The three row types of the application. TypeScript interfaces become records; the
  field names carry a prefix because several interfaces share \<open>id\<close>, \<open>list_id\<close>,
  \<open>name\<close> and \<open>created_at\<close>. Identifiers and timestamps are strings, as in
  the source; \<open>display_order\<close> is an SQL INTEGER.
\<close>

record ListRow =
  l_id :: string
  l_code :: string
  l_created_at :: string

record Item =
  item_id :: string
  item_list_id :: string
  item_name :: string
  item_category :: string
  bought :: bool
  item_created_at :: string

record Category =
  cat_id :: string
  cat_list_id :: string
  cat_name :: string
  is_default :: bool
  display_order :: int
  cat_created_at :: string

datatype ErrorCode = LIST_NOT_FOUND | INVALID_INPUT | DUPLICATE_CATEGORY | DATABASE_ERROR

text \<open>
  An \<open>ApiError\<close> is thrown as \<open>{code, message, details}\<close>. The Italian message
  texts play no part in any property and are left out; \<open>details\<close> carries the
  store's own error when there is one.
\<close>

datatype ApiError = ApiError ErrorCode "string option"

fun error_code :: "ApiError \<Rightarrow> ErrorCode" where
  "error_code (ApiError c d) = c"

section \<open>Array.prototype.sort\<close>

text \<open>
  \<open>xs.sort(cmp)\<close> is a stable sort: for a consistent comparator the result is the
  one ordering of \<open>xs\<close> that is sorted by \<open>cmp\<close> and keeps equal elements in
  their input order. Insertion from the right computes exactly that ordering:
  an element goes in front of the first element it does not compare greater than.
\<close>

fun insert_by :: "('a \<Rightarrow> 'a \<Rightarrow> int) \<Rightarrow> 'a \<Rightarrow> 'a list \<Rightarrow> 'a list" where
  "insert_by cmp x [] = [x]"
| "insert_by cmp x (y # ys) = (if cmp x y \<le> 0 then x # y # ys else y # insert_by cmp x ys)"

definition Array_sort :: "('a \<Rightarrow> 'a \<Rightarrow> int) \<Rightarrow> 'a list \<Rightarrow> 'a list" where
  "Array_sort cmp xs = foldr (insert_by cmp) xs []"

section \<open>Sorting and grouping (lib/sorting.ts)\<close>

text \<open>
  The comparator of \<open>sortItemsWithinCategory\<close>. \<open>getTime\<close> stands for
  \<open>new Date(s).getTime()\<close>, the milliseconds of a timestamp string; the rows come
  from a \<open>TIMESTAMP WITH TIME ZONE\<close> column, so the value is a number.
\<close>

definition compareItems :: "(string \<Rightarrow> int) \<Rightarrow> Item \<Rightarrow> Item \<Rightarrow> int" where
  "compareItems getTime a b =
     (if bought a \<noteq> bought b then (if bought a then 1 else -1)
      else getTime (item_created_at a) - getTime (item_created_at b))"

text \<open>
  Arrays are mutable objects, and \<open>sort\<close> works in place. To say what happens to
  the caller's array, arrays live in a heap: a list of arrays, an array's address being
  its index. \<open>[...items]\<close> allocates a copy at the next free address, \<open>sort\<close>
  overwrites the array it is called on and returns the same address.
\<close>

type_synonym heap = "Item list list"

definition spread :: "heap \<Rightarrow> nat \<Rightarrow> heap \<times> nat" where
  "spread h a = (h @ [h ! a], length h)"

definition sort_in_place :: "(Item \<Rightarrow> Item \<Rightarrow> int) \<Rightarrow> heap \<Rightarrow> nat \<Rightarrow> heap \<times> nat" where
  "sort_in_place cmp h a = (h[a := Array_sort cmp (h ! a)], a)"

definition sortItemsWithinCategory :: "(string \<Rightarrow> int) \<Rightarrow> heap \<Rightarrow> nat \<Rightarrow> heap \<times> nat" where
  "sortItemsWithinCategory getTime h items =
     (case spread h items of (h1, copy) \<Rightarrow> sort_in_place (compareItems getTime) h1 copy)"

text \<open>
  \<open>a.localeCompare(b)\<close> compares by the collation of the runtime's locale. A
  collation orders strings by their sort keys; \<open>key\<close> is that sort key, into any
  linear order.
\<close>

definition localeCompare :: "(string \<Rightarrow> 'k::linorder) \<Rightarrow> string \<Rightarrow> string \<Rightarrow> int" where
  "localeCompare key a b = (if key a < key b then -1 else if key a = key b then 0 else 1)"

definition compareCategories :: "(string \<Rightarrow> 'k::linorder) \<Rightarrow> Category \<Rightarrow> Category \<Rightarrow> int" where
  "compareCategories key a b =
     (if is_default a \<and> \<not> is_default b then -1
      else if \<not> is_default a \<and> is_default b then 1
      else if is_default a \<and> is_default b then display_order a - display_order b
      else localeCompare key (cat_name a) (cat_name b))"

definition sortCategories :: "(string \<Rightarrow> 'k::linorder) \<Rightarrow> Category list \<Rightarrow> Category list" where
  "sortCategories key categories = Array_sort (compareCategories key) categories"

record CategoryWithItems =
  cwi_category :: Category
  cwi_items :: "Item list"

text \<open>
  The loop of \<open>groupItemsByCategory\<close> that fills the \<open>Map\<close> from category name
  to items: one step per item, appending to the entry of the item's category
  (\<open>get(...) || []\<close>, \<open>push\<close>, \<open>set\<close>).
\<close>

definition add_to_group :: "Item \<Rightarrow> (string \<rightharpoonup> Item list) \<Rightarrow> (string \<rightharpoonup> Item list)" where
  "add_to_group item m =
     (let existing = (case m (item_category item) of None \<Rightarrow> [] | Some e \<Rightarrow> e)
      in m(item_category item \<mapsto> existing @ [item]))"

definition itemsByCategory :: "Item list \<Rightarrow> (string \<rightharpoonup> Item list)" where
  "itemsByCategory items = fold add_to_group items Map.empty"

definition has_items :: "(string \<rightharpoonup> Item list) \<Rightarrow> Category \<Rightarrow> bool" where
  "has_items m cat = (case m (cat_name cat) of None \<Rightarrow> False | Some l \<Rightarrow> length l > 0)"

definition groupItemsByCategory ::
  "(string \<Rightarrow> 'k::linorder) \<Rightarrow> Item list \<Rightarrow> Category list \<Rightarrow> CategoryWithItems list" where
  "groupItemsByCategory key items categories =
     (let m = itemsByCategory items;
          categoriesWithItems = filter (has_items m) categories;
          sortedCategories = sortCategories key categoriesWithItems
      in map (\<lambda>category.
                \<lparr>cwi_category = category,
                 cwi_items = (case m (cat_name category) of None \<Rightarrow> [] | Some l \<Rightarrow> l)\<rparr>)
             sortedCategories)"

section \<open>Local state and the change feed (ListDashboard, hooks/useListSubscription.ts)\<close>

text \<open>
  The dashboard keeps \<open>items\<close> and \<open>categories\<close> in React state; every callback
  is a state update \<open>setItems(prev => ...)\<close> or \<open>setCategories(prev => ...)\<close>.
\<close>

record ViewState =
  vs_items :: "Item list"
  vs_categories :: "Category list"

definition onItemInsert :: "Item \<Rightarrow> ViewState \<Rightarrow> ViewState" where
  "onItemInsert item st =
     st\<lparr>vs_items := (if list_ex (\<lambda>i. item_id i = item_id item) (vs_items st)
                      then vs_items st else vs_items st @ [item])\<rparr>"

definition onItemUpdate :: "Item \<Rightarrow> ViewState \<Rightarrow> ViewState" where
  "onItemUpdate item st =
     st\<lparr>vs_items := map (\<lambda>i. if item_id i = item_id item then item else i) (vs_items st)\<rparr>"

definition onItemDelete :: "Item \<Rightarrow> ViewState \<Rightarrow> ViewState" where
  "onItemDelete oldItem st =
     st\<lparr>vs_items := filter (\<lambda>i. item_id i \<noteq> item_id oldItem) (vs_items st)\<rparr>"

definition onCategoryInsert :: "Category \<Rightarrow> ViewState \<Rightarrow> ViewState" where
  "onCategoryInsert category st =
     st\<lparr>vs_categories := (if list_ex (\<lambda>c. cat_id c = cat_id category) (vs_categories st)
                           then vs_categories st else vs_categories st @ [category])\<rparr>"

definition onCategoryUpdate :: "Category \<Rightarrow> ViewState \<Rightarrow> ViewState" where
  "onCategoryUpdate category st =
     st\<lparr>vs_categories := map (\<lambda>c. if cat_id c = cat_id category then category else c) (vs_categories st)\<rparr>"

definition onCategoryDelete :: "Category \<Rightarrow> ViewState \<Rightarrow> ViewState" where
  "onCategoryDelete oldCategory st =
     st\<lparr>vs_items := map (\<lambda>item. if item_category item = cat_name oldCategory
                                  then item\<lparr>item_category := ''Altro''\<rparr> else item) (vs_items st),
        vs_categories := filter (\<lambda>c. cat_id c \<noteq> cat_id oldCategory) (vs_categories st)\<rparr>"

text \<open>
  A change-feed payload: the event type with the new and the old row. The hook calls a
  callback only when the row it needs is there.
\<close>

datatype eventType = INSERT | UPDATE | DELETE

record 'a payload =
  event_type :: eventType
  new_record :: "'a option"
  old_record :: "'a option"

definition handleItemChange :: "Item payload \<Rightarrow> ViewState \<Rightarrow> ViewState" where
  "handleItemChange p st =
     (case event_type p of
        INSERT \<Rightarrow> (case new_record p of Some newRecord \<Rightarrow> onItemInsert newRecord st | None \<Rightarrow> st)
      | UPDATE \<Rightarrow> (case new_record p of Some newRecord \<Rightarrow> onItemUpdate newRecord st | None \<Rightarrow> st)
      | DELETE \<Rightarrow> (case old_record p of Some oldRecord \<Rightarrow> onItemDelete oldRecord st | None \<Rightarrow> st))"

definition handleCategoryChange :: "Category payload \<Rightarrow> ViewState \<Rightarrow> ViewState" where
  "handleCategoryChange p st =
     (case event_type p of
        INSERT \<Rightarrow> (case new_record p of Some newRecord \<Rightarrow> onCategoryInsert newRecord st | None \<Rightarrow> st)
      | UPDATE \<Rightarrow> (case new_record p of Some newRecord \<Rightarrow> onCategoryUpdate newRecord st | None \<Rightarrow> st)
      | DELETE \<Rightarrow> (case old_record p of Some oldRecord \<Rightarrow> onCategoryDelete oldRecord st | None \<Rightarrow> st))"

section \<open>Strings (lib/utils.ts)\<close>

text \<open>
  A character is a code unit below 256: \<open>CHR 0xA0\<close> is U+00A0. Among these,
  \<open>String.prototype.trim\<close> removes the white space and line terminators of
  JavaScript: tab, line feed, vertical tab, form feed, carriage return, space and the
  no-break space U+00A0. Case mapping touches the letters A to Z only:
  \<open>toUpperCase\<close> is applied to strings that passed the code format, whose
  characters are A to Z, 0 to 9 and the hyphen, and \<open>toLowerCase\<close> is the
  folding of \<open>ILIKE\<close> on ASCII letters.
\<close>

definition upper_letters :: string where
  "upper_letters = ''ABCDEFGHIJKLMNOPQRSTUVWXYZ''"

definition lower_letters :: string where
  "lower_letters = ''abcdefghijklmnopqrstuvwxyz''"

definition digits :: string where
  "digits = ''0123456789''"

definition is_space :: "char \<Rightarrow> bool" where
  "is_space c = (c \<in> set [CHR 0x09, CHR 0x0A, CHR 0x0B, CHR 0x0C, CHR 0x0D, CHR 0x20, CHR 0xA0])"

definition trim :: "string \<Rightarrow> string" where
  "trim s = rev (dropWhile is_space (rev (dropWhile is_space s)))"

definition toUpperChar :: "char \<Rightarrow> char" where
  "toUpperChar c = (case map_of (zip lower_letters upper_letters) c of Some u \<Rightarrow> u | None \<Rightarrow> c)"

definition toLowerChar :: "char \<Rightarrow> char" where
  "toLowerChar c = (case map_of (zip upper_letters lower_letters) c of Some l \<Rightarrow> l | None \<Rightarrow> c)"

definition toUpperCase :: "string \<Rightarrow> string" where
  "toUpperCase s = map toUpperChar s"

definition toLowerCase :: "string \<Rightarrow> string" where
  "toLowerCase s = map toLowerChar s"

text \<open>The regular expression \<open>/^GRO-[A-Z0-9]{7}$/\<close>.\<close>

definition isValidListCodeFormat :: "string \<Rightarrow> bool" where
  "isValidListCodeFormat code =
     (take 4 code = ''GRO-'' \<and> length (drop 4 code) = 7
      \<and> list_all (\<lambda>c. c \<in> set (upper_letters @ digits)) (drop 4 code))"

definition isValidItemName :: "string \<Rightarrow> bool" where
  "isValidItemName name = (length (trim name) > 0)"

definition isValidCategoryName :: "string \<Rightarrow> bool" where
  "isValidCategoryName name = (length (trim name) > 0)"

section \<open>The durable store (supabase/schema.sql, supabase/policies.sql)\<close>

text \<open>
  The API functions talk to a relational store through query chains. Each chain the
  code uses is one call; the store appends every call it receives to \<open>calls\<close>, so
  that "before any storage call" and "first ..., then ..." are statements about that log.
\<close>

datatype store_call =
    SelectList string
  | SelectCategory string
  | SelectCategoryIds string string
  | SelectDisplayOrder string
  | InsertCategory string string bool int
  | InsertItem string string string bool
  | UpdateItems string string string
  | DeleteCategory string

text \<open>
  The store holds the three tables. \<open>outage\<close> is the environment: the error code
  the store answers to a call it cannot serve (network, permissions), \<open>None\<close> when it
  serves it. \<open>uuid\<close> and \<open>now\<close> are the column defaults
  \<open>gen_random_uuid()\<close> and \<open>NOW()\<close>, indexed by the number of calls so far.
\<close>

record store =
  tbl_lists :: "ListRow list"
  tbl_categories :: "Category list"
  tbl_items :: "Item list"
  outage :: "store_call \<Rightarrow> string option"
  uuid :: "nat \<Rightarrow> string"
  now :: "nat \<Rightarrow> string"
  calls :: "store_call list"

definition received :: "store_call \<Rightarrow> store \<Rightarrow> store" where
  "received c s = s\<lparr>calls := calls s @ [c]\<rparr>"

text \<open>
  \<open>.single()\<close> answers with the row when exactly one row matches and with the error
  \<open>PGRST116\<close> otherwise.
\<close>

definition single :: "'a list \<Rightarrow> string + 'a" where
  "single rows = (case rows of [row] \<Rightarrow> Inr row | _ \<Rightarrow> Inl ''PGRST116'')"

text \<open>
  A \<open>VARCHAR(n)\<close> column stores a string of at most \<open>n\<close> characters. A longer
  string is an error (code 22001) unless the excess is all spaces, which are cut off.
\<close>

definition varchar :: "nat \<Rightarrow> string \<Rightarrow> string option" where
  "varchar n v =
     (if length v \<le> n then Some v
      else if list_all (\<lambda>c. c = CHR '' '') (drop n v) then Some (take n v)
      else None)"

text \<open>\<open>from('lists').select().eq('code', code).single()\<close>\<close>

definition select_list :: "string \<Rightarrow> store \<Rightarrow> (string + ListRow) \<times> store" where
  "select_list code s =
     (case outage s (SelectList code) of
        Some e \<Rightarrow> (Inl e, received (SelectList code) s)
      | None \<Rightarrow> (single (filter (\<lambda>l. l_code l = code) (tbl_lists s)), received (SelectList code) s))"

text \<open>\<open>from('categories').select().eq('id', categoryId).single()\<close>\<close>

definition select_category :: "string \<Rightarrow> store \<Rightarrow> (string + Category) \<times> store" where
  "select_category categoryId s =
     (case outage s (SelectCategory categoryId) of
        Some e \<Rightarrow> (Inl e, received (SelectCategory categoryId) s)
      | None \<Rightarrow> (single (filter (\<lambda>c. cat_id c = categoryId) (tbl_categories s)),
                 received (SelectCategory categoryId) s))"

text \<open>
  \<open>ILIKE\<close> is pattern matching, not equality: in the pattern \<open>%\<close> matches any
  sequence of characters, \<open>_\<close> any one character, and a backslash takes the next
  character literally; a pattern that ends in a lone backslash is an error (code 22025)
  once matching reaches it, written \<open>None\<close>. Case is ignored by lowering both sides.
  The request layer reads \<open>*\<close> in a pattern as \<open>%\<close>.
\<close>

definition orelse :: "bool option \<Rightarrow> bool option \<Rightarrow> bool option" where
  "orelse a b = (case a of None \<Rightarrow> None | Some True \<Rightarrow> Some True | Some False \<Rightarrow> b)"

fun like :: "string \<Rightarrow> string \<Rightarrow> bool option" where
  "like [] t = Some (t = [])"
| "like (p # ps) [] = Some (list_all (\<lambda>c. c = CHR ''%'') (p # ps))"
| "like (p # ps) (c # cs) =
     (if p = CHR 0x5C then
        (case ps of [] \<Rightarrow> None | q # qs \<Rightarrow> if q = c then like qs cs else Some False)
      else if p = CHR ''%'' then orelse (like ps (c # cs)) (like (p # ps) cs)
      else if p = CHR ''_'' then like ps cs
      else if p = c then like ps cs
      else Some False)"

definition ilike :: "string \<Rightarrow> string \<Rightarrow> bool option" where
  "ilike pattern v =
     like (toLowerCase (map (\<lambda>c. if c = CHR ''*'' then CHR ''%'' else c) pattern)) (toLowerCase v)"

text \<open>
  An ASCII name without a character that \<open>ILIKE\<close> or the request layer reads
  specially.
\<close>

definition plain :: "string \<Rightarrow> bool" where
  "plain p =
     list_all (\<lambda>c. of_char c < (128::nat) \<and> c \<notin> set [CHR ''%'', CHR ''_'', CHR 0x5C, CHR ''*'']) p"

text \<open>\<open>from('categories').select('id').eq('list_id', listId).ilike('name', pattern)\<close>\<close>

definition select_category_ids :: "string \<Rightarrow> string \<Rightarrow> store \<Rightarrow> (string + string list) \<times> store" where
  "select_category_ids listId pattern s =
     (let rows = filter (\<lambda>c. cat_list_id c = listId) (tbl_categories s) in
      case outage s (SelectCategoryIds listId pattern) of
        Some e \<Rightarrow> (Inl e, received (SelectCategoryIds listId pattern) s)
      | None \<Rightarrow>
         (if list_ex (\<lambda>c. ilike pattern (cat_name c) = None) rows then Inl ''22025''
          else Inr (map cat_id (filter (\<lambda>c. ilike pattern (cat_name c) = Some True) rows)),
          received (SelectCategoryIds listId pattern) s))"

text \<open>
  \<open>from('categories').select('display_order').eq('list_id', listId)
  .order('display_order', {ascending: false}).limit(1)\<close>
\<close>

definition select_display_order :: "string \<Rightarrow> store \<Rightarrow> (string + int list) \<times> store" where
  "select_display_order listId s =
     (case outage s (SelectDisplayOrder listId) of
        Some e \<Rightarrow> (Inl e, received (SelectDisplayOrder listId) s)
      | None \<Rightarrow>
         (Inr (take 1 (rev (sort (map display_order
                 (filter (\<lambda>c. cat_list_id c = listId) (tbl_categories s)))))),
          received (SelectDisplayOrder listId) s))"

text \<open>
  \<open>from('categories').insert({list_id, name, is_default, display_order}).select().single()\<close>.
  The insert policy wants the list to exist and \<open>is_default = false\<close> (42501), the
  name column is \<open>VARCHAR(100)\<close>, the \<open>display_order\<close> column is
  \<open>INTEGER\<close> (a value outside 32 bits is refused, 22003), and
  \<open>UNIQUE(list_id, name)\<close> refuses a second row with the same list and name (23505).
\<close>

definition insert_category ::
  "string \<Rightarrow> string \<Rightarrow> bool \<Rightarrow> int \<Rightarrow> store \<Rightarrow> (string + Category) \<times> store" where
  "insert_category listId name dflt ord s =
     (let s' = received (InsertCategory listId name dflt ord) s in
      case outage s (InsertCategory listId name dflt ord) of
        Some e \<Rightarrow> (Inl e, s')
      | None \<Rightarrow>
         (case varchar 100 name of
            None \<Rightarrow> (Inl ''22001'', s')
          | Some stored \<Rightarrow>
             if ord < - 2147483648 \<or> 2147483647 < ord then (Inl ''22003'', s')
             else if \<not> list_ex (\<lambda>l. l_id l = listId) (tbl_lists s) \<or> dflt then (Inl ''42501'', s')
             else if list_ex (\<lambda>c. cat_list_id c = listId \<and> cat_name c = stored) (tbl_categories s)
             then (Inl ''23505'', s')
             else
               (let row = \<lparr>cat_id = uuid s (length (calls s)), cat_list_id = listId, cat_name = stored,
                           is_default = dflt, display_order = ord,
                           cat_created_at = now s (length (calls s))\<rparr>
                in (Inr row, s'\<lparr>tbl_categories := tbl_categories s @ [row]\<rparr>))))"

text \<open>
  \<open>from('items').insert({list_id, name, category, bought}).select().single()\<close>.
  The insert policy wants the list to exist (42501); the name column is
  \<open>VARCHAR(255)\<close>, the category column \<open>VARCHAR(100)\<close>.
\<close>

definition insert_item ::
  "string \<Rightarrow> string \<Rightarrow> string \<Rightarrow> bool \<Rightarrow> store \<Rightarrow> (string + Item) \<times> store" where
  "insert_item listId name category b s =
     (let s' = received (InsertItem listId name category b) s in
      case outage s (InsertItem listId name category b) of
        Some e \<Rightarrow> (Inl e, s')
      | None \<Rightarrow>
         (case (varchar 255 name, varchar 100 category) of
            (Some stored_name, Some stored_category) \<Rightarrow>
              if \<not> list_ex (\<lambda>l. l_id l = listId) (tbl_lists s) then (Inl ''42501'', s')
              else
                (let row = \<lparr>item_id = uuid s (length (calls s)), item_list_id = listId,
                            item_name = stored_name, item_category = stored_category, bought = b,
                            item_created_at = now s (length (calls s))\<rparr>
                 in (Inr row, s'\<lparr>tbl_items := tbl_items s @ [row]\<rparr>))
          | _ \<Rightarrow> (Inl ''22001'', s')))"

text \<open>
  \<open>from('items').update({category: target}).eq('list_id', listId).eq('category', name)\<close>
\<close>

definition update_items :: "string \<Rightarrow> string \<Rightarrow> string \<Rightarrow> store \<Rightarrow> string option \<times> store" where
  "update_items listId name target s =
     (let s' = received (UpdateItems listId name target) s in
      case outage s (UpdateItems listId name target) of
        Some e \<Rightarrow> (Some e, s')
      | None \<Rightarrow>
         (None, s'\<lparr>tbl_items :=
            map (\<lambda>i. if item_list_id i = listId \<and> item_category i = name
                      then i\<lparr>item_category := target\<rparr> else i) (tbl_items s)\<rparr>))"

text \<open>\<open>from('categories').delete().eq('id', categoryId)\<close>\<close>

definition delete_category :: "string \<Rightarrow> store \<Rightarrow> string option \<times> store" where
  "delete_category categoryId s =
     (let s' = received (DeleteCategory categoryId) s in
      case outage s (DeleteCategory categoryId) of
        Some e \<Rightarrow> (Some e, s')
      | None \<Rightarrow>
         (None, s'\<lparr>tbl_categories := filter (\<lambda>c. cat_id c \<noteq> categoryId) (tbl_categories s)\<rparr>))"

section \<open>List, category and item operations (lib/api)\<close>

text \<open>
  Every operation takes the store and returns its result with the store afterwards;
  a thrown \<open>ApiError\<close> is \<open>Inl\<close>. \<open>getListByCode\<close> returns \<open>null\<close> for "not
  found", written \<open>Inr None\<close>.
\<close>

text \<open>
  \<open>DEFAULT_CATEGORIES\<close>, and the rows that \<open>createList\<close> makes of them for
  a new list (\<open>categoriesData\<close>: each with \<open>is_default: true\<close>); their
  identifiers and timestamps are the store's.
\<close>

definition DEFAULT_CATEGORIES :: "(string \<times> int) list" where
  "DEFAULT_CATEGORIES =
     [(''Frutta e Verdura'', 1), (''Latticini'', 2), (''Carne e Pesce'', 3),
      (''Panetteria'', 4), (''Pulizia'', 5), (''Altro'', 6)]"

definition categoriesData :: "string \<Rightarrow> Category list" where
  "categoriesData listId =
     map (\<lambda>(name, ord). \<lparr>cat_id = ''cat-'' @ name, cat_list_id = listId, cat_name = name,
                          is_default = True, display_order = ord, cat_created_at = ''t0''\<rparr>)
         DEFAULT_CATEGORIES"

definition getListByCode :: "string \<Rightarrow> store \<Rightarrow> (ApiError + ListRow option) \<times> store" where
  "getListByCode code s =
     (if \<not> isValidListCodeFormat code then (Inr None, s)
      else case select_list (toUpperCase code) s of
             (Inl e, s') \<Rightarrow>
               if e = ''PGRST116'' then (Inr None, s')
               else (Inl (ApiError DATABASE_ERROR (Some e)), s')
           | (Inr data, s') \<Rightarrow> (Inr (Some data), s'))"

definition DEFAULT_REASSIGNMENT_CATEGORY :: string where
  "DEFAULT_REASSIGNMENT_CATEGORY = ''Altro''"

definition categoryNameExists :: "string \<Rightarrow> string \<Rightarrow> store \<Rightarrow> (ApiError + bool) \<times> store" where
  "categoryNameExists listId name s =
     (case select_category_ids listId (trim name) s of
        (Inl e, s') \<Rightarrow> (Inl (ApiError DATABASE_ERROR (Some e)), s')
      | (Inr data, s') \<Rightarrow> (Inr (length data > 0), s'))"

definition createCategory :: "string \<Rightarrow> string \<Rightarrow> store \<Rightarrow> (ApiError + Category) \<times> store" where
  "createCategory listId name s =
     (if \<not> isValidCategoryName name then (Inl (ApiError INVALID_INPUT None), s)
      else case categoryNameExists listId name s of
             (Inl err, s1) \<Rightarrow> (Inl err, s1)
           | (Inr exists, s1) \<Rightarrow>
               if exists then (Inl (ApiError DUPLICATE_CATEGORY None), s1)
               else
                 (case select_display_order listId s1 of (existingCategories, s2) \<Rightarrow>
                   (let nextOrder =
                          (case existingCategories of
                             Inr (highest # rest) \<Rightarrow> highest + 1
                           | _ \<Rightarrow> 100)
                    in case insert_category listId (trim name) False nextOrder s2 of
                         (Inl e, s3) \<Rightarrow> (Inl (ApiError DATABASE_ERROR (Some e)), s3)
                       | (Inr data, s3) \<Rightarrow> (Inr data, s3))))"

definition deleteCategory :: "string \<Rightarrow> string \<Rightarrow> store \<Rightarrow> (ApiError + unit) \<times> store" where
  "deleteCategory categoryId listId s =
     (case select_category categoryId s of
        (Inl fetchError, s1) \<Rightarrow> (Inl (ApiError DATABASE_ERROR (Some fetchError)), s1)
      | (Inr category, s1) \<Rightarrow>
          if is_default category then (Inl (ApiError INVALID_INPUT None), s1)
          else
            (case update_items listId (cat_name category) DEFAULT_REASSIGNMENT_CATEGORY s1 of
               (Some updateError, s2) \<Rightarrow> (Inl (ApiError DATABASE_ERROR (Some updateError)), s2)
             | (None, s2) \<Rightarrow>
                 (case delete_category categoryId s2 of
                    (Some deleteError, s3) \<Rightarrow> (Inl (ApiError DATABASE_ERROR (Some deleteError)), s3)
                  | (None, s3) \<Rightarrow> (Inr (), s3))))"

definition addItem :: "string \<Rightarrow> string \<Rightarrow> string \<Rightarrow> store \<Rightarrow> (ApiError + Item) \<times> store" where
  "addItem listId name category s =
     (if \<not> isValidItemName name then (Inl (ApiError INVALID_INPUT None), s)
      else if category = [] \<or> length (trim category) = 0 then (Inl (ApiError INVALID_INPUT None), s)
      else case insert_item listId (trim name) category False s of
             (Inl e, s') \<Rightarrow> (Inl (ApiError DATABASE_ERROR (Some e)), s')
           | (Inr data, s') \<Rightarrow> (Inr data, s'))"

section \<open>JSON text (JSON.stringify, JSON.parse)\<close>

text \<open>
  The values that occur in a serialized item: strings and booleans, as members of an
  object; a list of items is an array of such objects.
\<close>

datatype jvalue = JString string | JBool bool

text \<open>
  \<open>JSON.stringify\<close> quotes a string: the quotation mark, the backslash and the
  control characters below U+0020 are written as escape sequences (the short ones where
  JSON has them, \<open>\u00XX\<close> otherwise), every other character as itself.
\<close>

definition escape_table :: "(char \<times> string) list" where
  "escape_table =
     [(CHR 0x22, [CHR 0x5C, CHR 0x22]), (CHR 0x5C, [CHR 0x5C, CHR 0x5C]),
      (CHR 0x08, [CHR 0x5C, CHR ''b'']), (CHR 0x09, [CHR 0x5C, CHR ''t'']),
      (CHR 0x0A, [CHR 0x5C, CHR ''n'']), (CHR 0x0C, [CHR 0x5C, CHR ''f'']),
      (CHR 0x0D, [CHR 0x5C, CHR ''r'']),
      (CHR 0x00, CHR 0x5C # ''u0000''), (CHR 0x01, CHR 0x5C # ''u0001''),
      (CHR 0x02, CHR 0x5C # ''u0002''), (CHR 0x03, CHR 0x5C # ''u0003''),
      (CHR 0x04, CHR 0x5C # ''u0004''), (CHR 0x05, CHR 0x5C # ''u0005''),
      (CHR 0x06, CHR 0x5C # ''u0006''), (CHR 0x07, CHR 0x5C # ''u0007''),
      (CHR 0x0B, CHR 0x5C # ''u000b''), (CHR 0x0E, CHR 0x5C # ''u000e''),
      (CHR 0x0F, CHR 0x5C # ''u000f''), (CHR 0x10, CHR 0x5C # ''u0010''),
      (CHR 0x11, CHR 0x5C # ''u0011''), (CHR 0x12, CHR 0x5C # ''u0012''),
      (CHR 0x13, CHR 0x5C # ''u0013''), (CHR 0x14, CHR 0x5C # ''u0014''),
      (CHR 0x15, CHR 0x5C # ''u0015''), (CHR 0x16, CHR 0x5C # ''u0016''),
      (CHR 0x17, CHR 0x5C # ''u0017''), (CHR 0x18, CHR 0x5C # ''u0018''),
      (CHR 0x19, CHR 0x5C # ''u0019''), (CHR 0x1A, CHR 0x5C # ''u001a''),
      (CHR 0x1B, CHR 0x5C # ''u001b''), (CHR 0x1C, CHR 0x5C # ''u001c''),
      (CHR 0x1D, CHR 0x5C # ''u001d''), (CHR 0x1E, CHR 0x5C # ''u001e''),
      (CHR 0x1F, CHR 0x5C # ''u001f'')]"

definition json_escape :: "char \<Rightarrow> string" where
  "json_escape c = (case map_of escape_table c of Some e \<Rightarrow> e | None \<Rightarrow> [c])"

definition quote :: "string \<Rightarrow> string" where
  "quote s = CHR 0x22 # concat (map json_escape s) @ [CHR 0x22]"

fun join :: "string \<Rightarrow> string list \<Rightarrow> string" where
  "join sep [] = []"
| "join sep [x] = x"
| "join sep (x # y # ys) = x @ sep @ join sep (y # ys)"

fun stringify_value :: "jvalue \<Rightarrow> string" where
  "stringify_value (JString s) = quote s"
| "stringify_value (JBool b) = (if b then ''true'' else ''false'')"

definition stringify_member :: "string \<times> jvalue \<Rightarrow> string" where
  "stringify_member m = quote (fst m) @ '':'' @ stringify_value (snd m)"

definition stringify_object :: "(string \<times> jvalue) list \<Rightarrow> string" where
  "stringify_object members = ''{'' @ join '','' (map stringify_member members) @ ''}''"

definition stringify_array :: "(string \<times> jvalue) list list \<Rightarrow> string" where
  "stringify_array objects = ''['' @ join '','' (map stringify_object objects) @ '']''"

text \<open>
  \<open>JSON.parse\<close>, for the texts above: strings with every escape sequence of JSON,
  \<open>true\<close> and \<open>false\<close>, objects of such members and arrays of such objects,
  without white space between the tokens. A text outside this fragment (numbers,
  \<open>null\<close>, nesting, white space, a \<open>\u\<close> escape beyond U+00FF) is outside
  the model and is answered \<open>None\<close>, as a text that is not JSON is.
\<close>

definition hex_value :: "char \<Rightarrow> nat option" where
  "hex_value c =
     map_of (zip ''0123456789abcdefABCDEF''
                 [0, 1, 2, 3, 4, 5, 6, 7, 8, 9, 10, 11, 12, 13, 14, 15, 10, 11, 12, 13, 14, 15]) c"

definition unicode_escape :: "char \<Rightarrow> char \<Rightarrow> char \<Rightarrow> char \<Rightarrow> char option" where
  "unicode_escape a b c d =
     (case (hex_value a, hex_value b, hex_value c, hex_value d) of
        (Some h3, Some h2, Some h1, Some h0) \<Rightarrow>
          if h3 = 0 \<and> h2 = 0 then Some (char_of (16 * h1 + h0)) else None
      | _ \<Rightarrow> None)"

definition simple_escape :: "char \<Rightarrow> char option" where
  "simple_escape e =
     map_of [(CHR 0x22, CHR 0x22), (CHR 0x5C, CHR 0x5C), (CHR ''/'', CHR ''/''),
             (CHR ''b'', CHR 0x08), (CHR ''f'', CHR 0x0C), (CHR ''n'', CHR 0x0A),
             (CHR ''r'', CHR 0x0D), (CHR ''t'', CHR 0x09)] e"

definition is_control :: "char \<Rightarrow> bool" where
  "is_control c = (of_char c < (32::nat))"

text \<open>The characters of a string after its opening quotation mark, up to the closing one.\<close>

fun parse_chars :: "string \<Rightarrow> (string \<times> string) option" where
  "parse_chars [] = None"
| "parse_chars (c # cs) =
     (if c = CHR 0x22 then Some ([], cs)
      else if c = CHR 0x5C then
        (case cs of
           [] \<Rightarrow> None
         | e # r \<Rightarrow>
            if e = CHR ''u'' then
              (case r of
                 h3 # h2 # h1 # h0 # r' \<Rightarrow>
                   (case unicode_escape h3 h2 h1 h0 of
                      Some ch \<Rightarrow> map_option (apfst ((#) ch)) (parse_chars r')
                    | None \<Rightarrow> None)
               | _ \<Rightarrow> None)
            else
              (case simple_escape e of
                 Some ch \<Rightarrow> map_option (apfst ((#) ch)) (parse_chars r)
               | None \<Rightarrow> None))
      else if is_control c then None
      else map_option (apfst ((#) c)) (parse_chars cs))"

definition parse_value :: "string \<Rightarrow> (jvalue \<times> string) option" where
  "parse_value s =
     (if take 1 s = [CHR 0x22] then map_option (apfst JString) (parse_chars (drop 1 s))
      else if take 4 s = ''true'' then Some (JBool True, drop 4 s)
      else if take 5 s = ''false'' then Some (JBool False, drop 5 s)
      else None)"

definition parse_member :: "string \<Rightarrow> ((string \<times> jvalue) \<times> string) option" where
  "parse_member s =
     (if take 1 s = [CHR 0x22] then
        (case parse_chars (drop 1 s) of
           Some (k, r) \<Rightarrow>
             if take 1 r = '':'' then map_option (apfst (Pair k)) (parse_value (drop 1 r)) else None
         | None \<Rightarrow> None)
      else None)"

text \<open>
  The members after the opening brace, up to the closing one: a loop over the text,
  written with fuel; the length of the text is fuel enough.
\<close>

fun parse_members :: "nat \<Rightarrow> string \<Rightarrow> ((string \<times> jvalue) list \<times> string) option" where
  "parse_members 0 s = None"
| "parse_members (Suc n) s =
     (case parse_member s of
        None \<Rightarrow> None
      | Some (m, r) \<Rightarrow>
          if take 1 r = ''}'' then Some ([m], drop 1 r)
          else if take 1 r = '','' then map_option (apfst ((#) m)) (parse_members n (drop 1 r))
          else None)"

definition parse_object :: "string \<Rightarrow> ((string \<times> jvalue) list \<times> string) option" where
  "parse_object s =
     (if take 2 s = ''{}'' then Some ([], drop 2 s)
      else if take 1 s = ''{'' then parse_members (length s) (drop 1 s)
      else None)"

fun parse_elements :: "nat \<Rightarrow> string \<Rightarrow> ((string \<times> jvalue) list list \<times> string) option" where
  "parse_elements 0 s = None"
| "parse_elements (Suc n) s =
     (case parse_object s of
        None \<Rightarrow> None
      | Some (obj, r) \<Rightarrow>
          if take 1 r = '']'' then Some ([obj], drop 1 r)
          else if take 1 r = '','' then map_option (apfst ((#) obj)) (parse_elements n (drop 1 r))
          else None)"

definition parse_array :: "string \<Rightarrow> ((string \<times> jvalue) list list \<times> string) option" where
  "parse_array s =
     (if take 2 s = ''[]'' then Some ([], drop 2 s)
      else if take 1 s = ''['' then parse_elements (length s) (drop 1 s)
      else None)"

text \<open>\<open>JSON.parse\<close> reads the whole text: nothing may follow the value.\<close>

definition JSON_parse_object :: "string \<Rightarrow> (string \<times> jvalue) list option" where
  "JSON_parse_object s = (case parse_object s of Some (obj, []) \<Rightarrow> Some obj | _ \<Rightarrow> None)"

definition JSON_parse_array :: "string \<Rightarrow> (string \<times> jvalue) list list option" where
  "JSON_parse_array s = (case parse_array s of Some (objs, []) \<Rightarrow> Some objs | _ \<Rightarrow> None)"

section \<open>Serialization of items (lib/utils.ts)\<close>

definition serialized :: "Item \<Rightarrow> (string \<times> jvalue) list" where
  "serialized item =
     [(''id'', JString (item_id item)), (''list_id'', JString (item_list_id item)),
      (''name'', JString (item_name item)), (''category'', JString (item_category item)),
      (''bought'', JBool (bought item)), (''created_at'', JString (item_created_at item))]"

definition serializeItem :: "Item \<Rightarrow> string" where
  "serializeItem item = stringify_object (serialized item)"

text \<open>
  Reading a property of the parsed object gives the value of the last member with that
  name. The result is an \<open>Item\<close> when every property the code copies is there with
  the type the interface declares.
\<close>

definition property :: "(string \<times> jvalue) list \<Rightarrow> string \<Rightarrow> jvalue option" where
  "property obj k = map_of (rev obj) k"

definition item_of :: "(string \<times> jvalue) list \<Rightarrow> Item option" where
  "item_of parsed =
     (case (property parsed ''id'', property parsed ''list_id'', property parsed ''name'',
            property parsed ''category'', property parsed ''bought'', property parsed ''created_at'') of
        (Some (JString i), Some (JString l), Some (JString n), Some (JString c),
         Some (JBool b), Some (JString t)) \<Rightarrow>
          Some \<lparr>item_id = i, item_list_id = l, item_name = n, item_category = c, bought = b,
                item_created_at = t\<rparr>
      | _ \<Rightarrow> None)"

definition deserializeItem :: "string \<Rightarrow> Item option" where
  "deserializeItem json = (case JSON_parse_object json of Some parsed \<Rightarrow> item_of parsed | None \<Rightarrow> None)"

definition serializeItems :: "Item list \<Rightarrow> string" where
  "serializeItems items = stringify_array (map serialized items)"

definition deserializeItems :: "string \<Rightarrow> Item list option" where
  "deserializeItems json =
     (case JSON_parse_array json of
        Some parsed \<Rightarrow>
          if list_all (\<lambda>obj. item_of obj \<noteq> None) parsed then Some (map (\<lambda>obj. the (item_of obj)) parsed)
          else None
      | None \<Rightarrow> None)"

text \<open>An escape sequence \<open>e\<close> that \<open>JSON.parse\<close> reads as the character \<open>c\<close>.\<close>

definition decodes :: "char \<Rightarrow> string \<Rightarrow> bool" where
  "decodes c e =
     (case e of
        [bs, x] \<Rightarrow> bs = CHR 0x5C \<and> x \<noteq> CHR ''u'' \<and> simple_escape x = Some c
      | [bs, u, h3, h2, h1, h0] \<Rightarrow> bs = CHR 0x5C \<and> u = CHR ''u'' \<and> unicode_escape h3 h2 h1 h0 = Some c
      | _ \<Rightarrow> False)"

section \<open>Example data\<close>

text \<open>
  A store that holds one list with exactly the six default categories, as it is after
  \<open>createList\<close>, and a few rows to run the operations on.
\<close>

definition fresh_list :: store where
  "fresh_list =
     \<lparr>tbl_lists = [\<lparr>l_id = ''L'', l_code = ''GRO-A1B2C3D'', l_created_at = ''t0''\<rparr>],
      tbl_categories = categoriesData ''L'',
      tbl_items = [],
      outage = (\<lambda>c. None),
      uuid = (\<lambda>n. ''id-'' @ replicate n (CHR ''x'')),
      now = (\<lambda>n. ''t'' @ replicate n (CHR ''x'')),
      calls = []\<rparr>"

definition altro :: Category where
  "altro = \<lparr>cat_id = ''c6'', cat_list_id = ''L'', cat_name = ''Altro'', is_default = True,
            display_order = 6, cat_created_at = ''t0''\<rparr>"

definition latticini :: Category where
  "latticini = \<lparr>cat_id = ''c2'', cat_list_id = ''L'', cat_name = ''Latticini'', is_default = True,
            display_order = 2, cat_created_at = ''t0''\<rparr>"

definition snacks :: Category where
  "snacks = \<lparr>cat_id = ''c7'', cat_list_id = ''L'', cat_name = ''Snacks'', is_default = False,
            display_order = 100, cat_created_at = ''t1''\<rparr>"

definition milk :: Item where
  "milk = \<lparr>item_id = ''i1'', item_list_id = ''L'', item_name = ''milk'', item_category = ''Latticini'',
           bought = True, item_created_at = ''1''\<rparr>"

definition chips :: Item where
  "chips = \<lparr>item_id = ''i2'', item_list_id = ''L'', item_name = ''chips'', item_category = ''Snacks'',
           bought = False, item_created_at = ''222''\<rparr>"

definition eggs :: Item where
  "eggs = \<lparr>item_id = ''i3'', item_list_id = ''L'', item_name = ''eggs'', item_category = ''Latticini'',
           bought = False, item_created_at = ''33''\<rparr>"

definition snacks_store :: store where
  "snacks_store = fresh_list\<lparr>tbl_categories := categoriesData ''L'' @ [snacks],
                              tbl_items := [milk, chips]\<rparr>"

section \<open>Properties of the sort\<close>

lemma mset_insert_by: "mset (insert_by cmp x xs) = add_mset x (mset xs)"
  by (induction xs) auto

lemma mset_Array_sort: "mset (Array_sort cmp xs) = mset xs"
  unfolding Array_sort_def by (induction xs) (auto simp: mset_insert_by)

lemma set_insert_by: "set (insert_by cmp x xs) = insert x (set xs)"
  by (induction xs) auto

lemma set_Array_sort: "set (Array_sort cmp xs) = set xs"
  unfolding Array_sort_def by (induction xs) (auto simp: set_insert_by)

text \<open>
  For a comparator that is total and transitive (a consistent comparator), the result is
  sorted: no element compares greater than a later one.
\<close>

lemma sorted_insert_by:
  assumes tr: "\<And>a b c. cmp a b \<le> 0 \<Longrightarrow> cmp b c \<le> 0 \<Longrightarrow> cmp a c \<le> 0"
    and tot: "\<And>a b. cmp a b \<le> 0 \<or> cmp b a \<le> 0"
    and srt: "sorted_wrt (\<lambda>a b. cmp a b \<le> 0) xs"
  shows "sorted_wrt (\<lambda>a b. cmp a b \<le> 0) (insert_by cmp x xs)"
  using srt
proof (induction xs)
  case Nil
  then show ?case by simp
next
  case (Cons y ys)
  show ?case
  proof (cases "cmp x y \<le> 0")
    case True
    with Cons.prems tr show ?thesis by auto
  next
    case False
    with tot have "cmp y x \<le> 0" by blast
    with False Cons show ?thesis by (auto simp: set_insert_by)
  qed
qed

lemma sorted_Array_sort:
  assumes tr: "\<And>a b c. cmp a b \<le> 0 \<Longrightarrow> cmp b c \<le> 0 \<Longrightarrow> cmp a c \<le> 0"
    and tot: "\<And>a b. cmp a b \<le> 0 \<or> cmp b a \<le> 0"
  shows "sorted_wrt (\<lambda>a b. cmp a b \<le> 0) (Array_sort cmp xs)"
proof (induction xs)
  case Nil
  show ?case by (simp add: Array_sort_def)
next
  case (Cons x xs)
  have "Array_sort cmp (x # xs) = insert_by cmp x (Array_sort cmp xs)"
    by (simp add: Array_sort_def)
  with Cons sorted_insert_by [of cmp, OF tr tot] show ?case by simp
qed

lemma sorted_wrt_filter_weaken:
  "sorted_wrt R xs \<Longrightarrow> (\<And>a b. P a \<Longrightarrow> P b \<Longrightarrow> R a b \<Longrightarrow> S a b) \<Longrightarrow> sorted_wrt S (filter P xs)"
  by (induction xs) auto

section \<open>sortItemsWithinCategory\<close>

lemma compareItems_le:
  "compareItems getTime a b \<le> 0 \<longleftrightarrow>
     (\<not> bought a \<and> bought b) \<or>
     (bought a = bought b \<and> getTime (item_created_at a) \<le> getTime (item_created_at b))"
  by (auto simp: compareItems_def)

lemma sorted_items:
  "sorted_wrt (\<lambda>a b. compareItems getTime a b \<le> 0) (Array_sort (compareItems getTime) xs)"
  by (rule sorted_Array_sort) (auto simp: compareItems_le)

text \<open>
  C5. Called on the array at address \<open>items\<close>, \<open>sortItemsWithinCategory\<close> returns
  a new array (the next free address) and leaves every array that was there, the input
  included, as it was. The new array is a permutation of the input; no bought item
  stands before an unbought one; the unbought items and the bought items are each in
  non-decreasing order of creation time.
\<close>

theorem sortItemsWithinCategory_sorted_permutation:
  assumes a: "items < length h"
    and r: "sortItemsWithinCategory getTime h items = (h', res)"
  shows "res = length h \<and> length h' = Suc (length h)
       \<and> take (length h) h' = h
       \<and> mset (h' ! res) = mset (h ! items)
       \<and> (\<forall>i j. i < j \<and> j < length (h' ! res) \<and> bought (h' ! res ! i) \<longrightarrow> bought (h' ! res ! j))
       \<and> sorted_wrt (\<lambda>x y. getTime (item_created_at x) \<le> getTime (item_created_at y))
            (filter (\<lambda>x. \<not> bought x) (h' ! res))
       \<and> sorted_wrt (\<lambda>x y. getTime (item_created_at x) \<le> getTime (item_created_at y))
            (filter bought (h' ! res))"
proof -
  let ?out = "Array_sort (compareItems getTime) (h ! items)"
  from r have s: "res = length h" and h': "h' = h @ [?out]"
    by (auto simp: sortItemsWithinCategory_def spread_def sort_in_place_def)
  have out: "h' ! res = ?out" by (simp add: s h')
  have srt: "sorted_wrt (\<lambda>a b. compareItems getTime a b \<le> 0) ?out" by (rule sorted_items)
  have p1: "\<forall>i j. i < j \<and> j < length ?out \<and> bought (?out ! i) \<longrightarrow> bought (?out ! j)"
  proof (intro allI impI)
    fix i j assume ij: "i < j \<and> j < length ?out \<and> bought (?out ! i)"
    with srt have "compareItems getTime (?out ! i) (?out ! j) \<le> 0"
      by (simp add: sorted_wrt_iff_nth_less)
    with ij show "bought (?out ! j)" by (auto simp: compareItems_le)
  qed
  have p2: "sorted_wrt (\<lambda>x y. getTime (item_created_at x) \<le> getTime (item_created_at y))
            (filter (\<lambda>x. \<not> bought x) ?out)"
    by (rule sorted_wrt_filter_weaken [OF srt]) (auto simp: compareItems_le)
  have p3: "sorted_wrt (\<lambda>x y. getTime (item_created_at x) \<le> getTime (item_created_at y))
            (filter bought ?out)"
    by (rule sorted_wrt_filter_weaken [OF srt]) (auto simp: compareItems_le)
  show ?thesis
    using p1 p2 p3 by (simp add: out s h' mset_Array_sort)
qed

lemma sort_example:
  "sortItemsWithinCategory (\<lambda>s. int (length s)) [[milk, chips, eggs]] 0
     = ([[milk, chips, eggs], [eggs, chips, milk]], 1)"
  by (simp add: sortItemsWithinCategory_def spread_def sort_in_place_def Array_sort_def
      compareItems_def milk_def chips_def eggs_def)

theorem sortItemsWithinCategory_sorted_permutation_witness:
  "sortItemsWithinCategory (\<lambda>s. int (length s)) [[milk, chips, eggs]] 0
     = ([[milk, chips, eggs], [eggs, chips, milk]], 1)
   \<and> take 1 [[milk, chips, eggs], [eggs, chips, milk]] = [[milk, chips, eggs]]
   \<and> mset [eggs, chips, milk] = mset [milk, chips, eggs]"
  using sortItemsWithinCategory_sorted_permutation [of 0 "[[milk, chips, eggs]]"
      "\<lambda>s. int (length s)" "[[milk, chips, eggs], [eggs, chips, milk]]" 1] sort_example
  by simp

section \<open>groupItemsByCategory\<close>

lemma compareCategories_le:
  "compareCategories key a b \<le> 0 \<longleftrightarrow>
     (is_default a \<and> \<not> is_default b) \<or>
     (is_default a \<and> is_default b \<and> display_order a \<le> display_order b) \<or>
     (\<not> is_default a \<and> \<not> is_default b \<and> key (cat_name a) \<le> key (cat_name b))"
  by (auto simp: compareCategories_def localeCompare_def)

lemma sorted_sortCategories:
  "sorted_wrt (\<lambda>a b. compareCategories key a b \<le> 0) (sortCategories key cs)"
  unfolding sortCategories_def
  by (rule sorted_Array_sort) (auto simp: compareCategories_le)

text \<open>The map built by the loop holds, under each name, the items of that category in input order.\<close>

lemma fold_add_to_group:
  "fold add_to_group items m n =
     (if filter (\<lambda>i. item_category i = n) items = [] then m n
      else Some ((case m n of None \<Rightarrow> [] | Some e \<Rightarrow> e) @ filter (\<lambda>i. item_category i = n) items))"
  by (induction items arbitrary: m) (auto simp: add_to_group_def)

lemma itemsByCategory_lookup:
  "itemsByCategory items n =
     (if filter (\<lambda>i. item_category i = n) items = [] then None
      else Some (filter (\<lambda>i. item_category i = n) items))"
  by (simp add: itemsByCategory_def fold_add_to_group)

lemma has_items_iff:
  "has_items (itemsByCategory items) c \<longleftrightarrow> (\<exists>i\<in>set items. item_category i = cat_name c)"
  by (auto simp: has_items_def itemsByCategory_lookup filter_empty_conv)

lemma has_items_eq:
  "has_items (itemsByCategory items) = (\<lambda>c. \<exists>i\<in>set items. item_category i = cat_name c)"
  by (rule ext) (simp add: has_items_iff)

lemma group_categories:
  "map cwi_category (groupItemsByCategory key items cats) =
     sortCategories key (filter (\<lambda>c. \<exists>i\<in>set items. item_category i = cat_name c) cats)"
  by (simp add: groupItemsByCategory_def Let_def o_def has_items_eq)

lemma group_items:
  "g \<in> set (groupItemsByCategory key items cats) \<Longrightarrow>
     cwi_items g = filter (\<lambda>i. item_category i = cat_name (cwi_category g)) items"
  by (auto simp: groupItemsByCategory_def Let_def itemsByCategory_lookup)

lemma group_nonempty:
  assumes g: "g \<in> set (groupItemsByCategory key items cats)"
  shows "cwi_items g \<noteq> []"
proof -
  from g have "cwi_category g \<in> set (map cwi_category (groupItemsByCategory key items cats))"
    by simp
  then have "\<exists>i\<in>set items. item_category i = cat_name (cwi_category g)"
    by (simp add: group_categories sortCategories_def set_Array_sort)
  with group_items [OF g] show ?thesis by (auto simp: filter_empty_conv)
qed

lemma group_concat:
  "concat (map cwi_items (groupItemsByCategory key items cats)) =
   concat (map (\<lambda>c. filter (\<lambda>i. item_category i = cat_name c) items)
      (map cwi_category (groupItemsByCategory key items cats)))"
  by (simp add: o_def group_items cong: map_cong)

lemma mset_concat_map_perm:
  assumes eq: "mset xs = mset ys"
  shows "mset (concat (map f xs)) = mset (concat (map f ys))"
proof -
  have c: "\<And>zs. mset (concat (map f zs)) = sum_mset (image_mset (\<lambda>x. mset (f x)) (mset zs))"
    by (induct_tac zs) auto
  show ?thesis by (simp add: c eq)
qed

lemma mset_filter_names:
  "distinct (map cat_name cats) \<Longrightarrow>
   mset (concat (map (\<lambda>c. filter (\<lambda>i. item_category i = cat_name c) items) cats)) =
   mset (filter (\<lambda>i. item_category i \<in> cat_name ` set cats) items)"
proof (induction cats)
  case Nil
  then show ?case by simp
next
  case (Cons c cs)
  have "mset (filter (\<lambda>i. item_category i \<in> cat_name ` set (c # cs)) items) =
        mset (filter (\<lambda>i. item_category i = cat_name c) items) +
        mset (filter (\<lambda>i. item_category i \<in> cat_name ` set cs) items)"
    using Cons.prems by (induction items) auto
  with Cons show ?case by simp
qed

lemma drop_empty_groups:
  "concat (map (\<lambda>c. filter (\<lambda>i. item_category i = cat_name c) items)
      (filter (\<lambda>c. \<exists>i\<in>set items. item_category i = cat_name c) cats)) =
   concat (map (\<lambda>c. filter (\<lambda>i. item_category i = cat_name c) items) cats)"
  by (induction cats) (auto simp: filter_empty_conv)

lemma group_partition:
  assumes "distinct (map cat_name cats)"
  shows "mset (concat (map cwi_items (groupItemsByCategory key items cats))) =
         mset (filter (\<lambda>i. item_category i \<in> cat_name ` set cats) items)"
proof -
  have "mset (map cwi_category (groupItemsByCategory key items cats)) =
        mset (filter (\<lambda>c. \<exists>i\<in>set items. item_category i = cat_name c) cats)"
    by (simp add: group_categories sortCategories_def mset_Array_sort)
  then have "mset (concat (map cwi_items (groupItemsByCategory key items cats))) =
     mset (concat (map (\<lambda>c. filter (\<lambda>i. item_category i = cat_name c) items)
        (filter (\<lambda>c. \<exists>i\<in>set items. item_category i = cat_name c) cats)))"
    unfolding group_concat by (rule mset_concat_map_perm)
  with assms show ?thesis by (simp add: drop_empty_groups mset_filter_names)
qed

lemma group_order:
  "sorted_wrt (\<lambda>a b. (is_default b \<longrightarrow> is_default a)
                   \<and> (is_default a \<and> is_default b \<longrightarrow> display_order a \<le> display_order b)
                   \<and> (\<not> is_default a \<and> \<not> is_default b \<longrightarrow> key (cat_name a) \<le> key (cat_name b)))
     (map cwi_category (groupItemsByCategory key items cats))"
  unfolding group_categories
  by (rule sorted_wrt_mono_rel [OF _ sorted_sortCategories [of key]])
     (auto simp: compareCategories_le)

lemma group_unmatched:
  fixes i :: Item
  assumes i: "item_category i \<notin> cat_name ` set cats"
    and gr: "gr \<in> set (groupItemsByCategory key items cats)"
  shows "i \<notin> set (cwi_items gr)"
proof -
  from gr have "cwi_category gr \<in> set (map cwi_category (groupItemsByCategory key items cats))"
    by simp
  then have "cwi_category gr \<in> set cats"
    by (simp add: group_categories sortCategories_def set_Array_sort)
  with i have "item_category i \<noteq> cat_name (cwi_category gr)" by auto
  with group_items [OF gr] show ?thesis by simp
qed

text \<open>
  C1, as stated, fails. An item whose category name is the name of none of the given
  categories is in no output group: \<open>chips\<close> (category Snacks) grouped with the
  category Altro alone gives no group at all. And when two of the given categories
  have the same name, an item of that name is in both their groups.
\<close>

theorem groupItemsByCategory_not_a_partition:
  "groupItemsByCategory length [chips] [altro] = []
   \<and> groupItemsByCategory length [chips] [snacks, snacks\<lparr>cat_id := ''c8''\<rparr>] =
       [\<lparr>cwi_category = snacks, cwi_items = [chips]\<rparr>,
        \<lparr>cwi_category = snacks\<lparr>cat_id := ''c8''\<rparr>, cwi_items = [chips]\<rparr>]"
  by (simp add: groupItemsByCategory_def itemsByCategory_def add_to_group_def has_items_def
      sortCategories_def Array_sort_def compareCategories_def localeCompare_def
      chips_def altro_def snacks_def)

text \<open>
  C1, amended. The output has one group for each given category that has an item of
  its name, and none for a category without items; the groups stand in the order of
  \<open>sortCategories\<close>: defaults before customs, defaults by \<open>display_order\<close>,
  customs by the collation of their names. Each group holds exactly the input items
  whose category is the group's name, in input order, and is not empty. When the
  categories' names are pairwise distinct, the groups together hold every input item
  whose category is the name of a given category exactly once; an item whose category
  is the name of no given category is in no group.
\<close>

theorem groupItemsByCategory_partition:
  fixes key :: "string \<Rightarrow> 'k::linorder"
  assumes g: "groups = groupItemsByCategory key items categories"
  shows "map cwi_category groups =
           sortCategories key (filter (\<lambda>c. \<exists>i\<in>set items. item_category i = cat_name c) categories)
    \<and> mset (map cwi_category groups) =
           mset (filter (\<lambda>c. \<exists>i\<in>set items. item_category i = cat_name c) categories)
    \<and> sorted_wrt (\<lambda>a b. (is_default b \<longrightarrow> is_default a)
                   \<and> (is_default a \<and> is_default b \<longrightarrow> display_order a \<le> display_order b)
                   \<and> (\<not> is_default a \<and> \<not> is_default b \<longrightarrow> key (cat_name a) \<le> key (cat_name b)))
           (map cwi_category groups)
    \<and> (\<forall>g\<in>set groups. cwi_items g \<noteq> []
           \<and> cwi_items g = filter (\<lambda>i. item_category i = cat_name (cwi_category g)) items)
    \<and> (distinct (map cat_name categories) \<longrightarrow>
           mset (concat (map cwi_items groups)) =
           mset (filter (\<lambda>i. item_category i \<in> cat_name ` set categories) items))
    \<and> (\<forall>i\<in>set items. item_category i \<notin> cat_name ` set categories \<longrightarrow>
           (\<forall>g\<in>set groups. i \<notin> set (cwi_items g)))"
proof -
  have p1: "map cwi_category groups =
           sortCategories key (filter (\<lambda>c. \<exists>i\<in>set items. item_category i = cat_name c) categories)"
    by (simp add: g group_categories)
  then have p2: "mset (map cwi_category groups) =
           mset (filter (\<lambda>c. \<exists>i\<in>set items. item_category i = cat_name c) categories)"
    by (simp add: sortCategories_def mset_Array_sort)
  have p3: "sorted_wrt (\<lambda>a b. (is_default b \<longrightarrow> is_default a)
                   \<and> (is_default a \<and> is_default b \<longrightarrow> display_order a \<le> display_order b)
                   \<and> (\<not> is_default a \<and> \<not> is_default b \<longrightarrow> key (cat_name a) \<le> key (cat_name b)))
           (map cwi_category groups)"
    unfolding g by (rule group_order)
  have p4: "\<forall>g\<in>set groups. cwi_items g \<noteq> []
           \<and> cwi_items g = filter (\<lambda>i. item_category i = cat_name (cwi_category g)) items"
    using group_nonempty group_items unfolding g by blast
  have p5: "distinct (map cat_name categories) \<longrightarrow>
           mset (concat (map cwi_items groups)) =
           mset (filter (\<lambda>i. item_category i \<in> cat_name ` set categories) items)"
    unfolding g using group_partition by blast
  have p6: "\<forall>i\<in>set items. item_category i \<notin> cat_name ` set categories \<longrightarrow>
           (\<forall>g\<in>set groups. i \<notin> set (cwi_items g))"
    unfolding g using group_unmatched by blast
  from p1 p2 p3 p4 p5 p6 show ?thesis by (intro conjI) assumption+
qed

lemma group_example:
  "groupItemsByCategory length [milk, chips, eggs] [snacks, altro, latticini] =
     [\<lparr>cwi_category = latticini, cwi_items = [milk, eggs]\<rparr>,
      \<lparr>cwi_category = snacks, cwi_items = [chips]\<rparr>]"
  by (simp add: groupItemsByCategory_def itemsByCategory_def add_to_group_def has_items_def
      sortCategories_def Array_sort_def compareCategories_def localeCompare_def
      milk_def chips_def eggs_def snacks_def altro_def latticini_def)

theorem groupItemsByCategory_partition_witness:
  "groupItemsByCategory length [milk, chips, eggs] [snacks, altro, latticini] =
     [\<lparr>cwi_category = latticini, cwi_items = [milk, eggs]\<rparr>,
      \<lparr>cwi_category = snacks, cwi_items = [chips]\<rparr>]
   \<and> distinct (map cat_name [snacks, altro, latticini])
   \<and> mset ([milk, eggs] @ [chips]) =
       mset (filter (\<lambda>i. item_category i \<in> cat_name ` set [snacks, altro, latticini])
              [milk, chips, eggs])"
proof -
  have d: "distinct (map cat_name [snacks, altro, latticini])"
    by (simp add: snacks_def altro_def latticini_def)
  from groupItemsByCategory_partition [OF group_example [symmetric]] d
  have "mset (concat (map cwi_items [\<lparr>cwi_category = latticini, cwi_items = [milk, eggs]\<rparr>,
      \<lparr>cwi_category = snacks, cwi_items = [chips]\<rparr>])) =
       mset (filter (\<lambda>i. item_category i \<in> cat_name ` set [snacks, altro, latticini])
              [milk, chips, eggs])"
    by blast
  with d group_example show ?thesis by simp
qed

section \<open>The change feed\<close>

lemma onItemInsert_items:
  "vs_items (onItemInsert item st) =
     (if item_id item \<in> item_id ` set (vs_items st) then vs_items st else vs_items st @ [item])"
  unfolding onItemInsert_def list_ex_iff by (simp add: image_iff) metis

lemma onItemInsert_categories: "vs_categories (onItemInsert item st) = vs_categories st"
  by (simp add: onItemInsert_def)

text \<open>
  C3. A category-deleted event removes every category with the deleted row's
  identifier and keeps the others; it sets the category of every local item whose
  category is the deleted row's name to \<open>Altro\<close>, changing nothing else of the item,
  and leaves every other item as it is. An item-inserted event whose identifier is
  already among the local items leaves the items unchanged; otherwise the item is
  appended. Neither touches the other collection beyond that.
\<close>

theorem change_feed_merge:
  assumes d: "event_type p = DELETE" "old_record p = Some oldCategory"
    and i: "event_type q = INSERT" "new_record q = Some item"
  shows "vs_categories (handleCategoryChange p st) =
           filter (\<lambda>c. cat_id c \<noteq> cat_id oldCategory) (vs_categories st)
    \<and> length (vs_items (handleCategoryChange p st)) = length (vs_items st)
    \<and> (\<forall>k < length (vs_items st).
          vs_items (handleCategoryChange p st) ! k =
            (if item_category (vs_items st ! k) = cat_name oldCategory
             then (vs_items st ! k)\<lparr>item_category := ''Altro''\<rparr> else vs_items st ! k))
    \<and> (item_id item \<in> item_id ` set (vs_items st) \<longrightarrow>
          vs_items (handleItemChange q st) = vs_items st)
    \<and> (item_id item \<notin> item_id ` set (vs_items st) \<longrightarrow>
          vs_items (handleItemChange q st) = vs_items st @ [item])
    \<and> vs_categories (handleItemChange q st) = vs_categories st"
  using d i
  by (simp add: handleCategoryChange_def handleItemChange_def onCategoryDelete_def
      onItemInsert_items onItemInsert_categories)

theorem change_feed_merge_witness:
  "vs_categories (handleCategoryChange
       \<lparr>event_type = DELETE, new_record = None, old_record = Some snacks\<rparr>
       \<lparr>vs_items = [milk, chips], vs_categories = [altro, snacks]\<rparr>) = [altro]
   \<and> vs_items (handleCategoryChange
       \<lparr>event_type = DELETE, new_record = None, old_record = Some snacks\<rparr>
       \<lparr>vs_items = [milk, chips], vs_categories = [altro, snacks]\<rparr>)
       = [milk, chips\<lparr>item_category := ''Altro''\<rparr>]
   \<and> vs_items (handleItemChange
       \<lparr>event_type = INSERT, new_record = Some chips, old_record = None\<rparr>
       \<lparr>vs_items = [milk, chips], vs_categories = [altro, snacks]\<rparr>) = [milk, chips]"
proof -
  let ?p = "\<lparr>event_type = DELETE, new_record = None, old_record = Some snacks\<rparr>"
  let ?q = "\<lparr>event_type = INSERT, new_record = Some chips, old_record = None\<rparr>"
  let ?st = "\<lparr>vs_items = [milk, chips], vs_categories = [altro, snacks]\<rparr>"
  have f: "filter (\<lambda>c. cat_id c \<noteq> cat_id snacks) [altro, snacks] = [altro]"
    by (simp add: altro_def snacks_def)
  have m: "item_category milk \<noteq> cat_name snacks" "item_category chips = cat_name snacks"
    by (simp_all add: milk_def chips_def snacks_def)
  from change_feed_merge [of ?p snacks ?q chips ?st]
  have r: "vs_categories (handleCategoryChange ?p ?st) = [altro]"
    "length (vs_items (handleCategoryChange ?p ?st)) = 2"
    "vs_items (handleCategoryChange ?p ?st) ! 0 = milk"
    "vs_items (handleCategoryChange ?p ?st) ! 1 = chips\<lparr>item_category := ''Altro''\<rparr>"
    "vs_items (handleItemChange ?q ?st) = [milk, chips]"
    using f m by simp_all
  from r(2,3,4) have "vs_items (handleCategoryChange ?p ?st) = [milk, chips\<lparr>item_category := ''Altro''\<rparr>]"
    by (simp add: list_eq_iff_nth_eq less_Suc_eq numeral_2_eq_2)
  with r(1,5) show ?thesis by simp
qed

section \<open>getListByCode\<close>

lemma toUpperChar_fix_all: "list_all (\<lambda>c. toUpperChar c = c) (upper_letters @ digits)"
  by (simp add: toUpperChar_def upper_letters_def lower_letters_def digits_def)

lemma toUpperChar_fix: "c \<in> set (upper_letters @ digits) \<Longrightarrow> toUpperChar c = c"
  using toUpperChar_fix_all unfolding list_all_iff by blast

lemma toUpperCase_fix: "list_all (\<lambda>c. c \<in> set (upper_letters @ digits)) cs \<Longrightarrow> toUpperCase cs = cs"
  by (induction cs) (simp_all add: toUpperCase_def toUpperChar_fix del: set_append)

lemma toUpperCase_valid:
  assumes "isValidListCodeFormat code"
  shows "toUpperCase code = code"
proof -
  from assms have c: "code = ''GRO-'' @ drop 4 code"
    by (metis append_take_drop_id isValidListCodeFormat_def)
  have g: "toUpperCase ''GRO-'' = ''GRO-''"
    by (simp add: toUpperCase_def toUpperChar_def upper_letters_def lower_letters_def)
  from assms have d: "toUpperCase (drop 4 code) = drop 4 code"
    by (simp add: isValidListCodeFormat_def toUpperCase_fix del: set_append)
  have "toUpperCase (''GRO-'' @ drop 4 code) = toUpperCase ''GRO-'' @ toUpperCase (drop 4 code)"
    by (simp add: toUpperCase_def)
  with c g d show ?thesis by simp
qed

lemma calls_received: "calls (received c s) = calls s @ [c]"
  and tbl_received: "tbl_lists (received c s) = tbl_lists s"
    "tbl_categories (received c s) = tbl_categories s" "tbl_items (received c s) = tbl_items s"
  and env_received: "outage (received c s) = outage s" "uuid (received c s) = uuid s"
    "now (received c s) = now s"
  by (simp_all add: received_def)

lemma getListByCode_invalid:
  "\<not> isValidListCodeFormat code \<Longrightarrow> getListByCode code s = (Inr None, s)"
  by (simp add: getListByCode_def)

lemma getListByCode_valid:
  "isValidListCodeFormat code \<Longrightarrow>
   getListByCode code s =
     ((case outage s (SelectList code) of
         Some e \<Rightarrow> if e = ''PGRST116'' then Inr None else Inl (ApiError DATABASE_ERROR (Some e))
       | None \<Rightarrow> (case filter (\<lambda>l. l_code l = code) (tbl_lists s) of
                    [row] \<Rightarrow> Inr (Some row) | _ \<Rightarrow> Inr None)),
      received (SelectList code) s)"
  by (simp add: getListByCode_def select_list_def single_def toUpperCase_valid
      split: option.splits list.splits)

text \<open>
  C8. A string that does not match the code format is answered with "not found" and the
  store is left as it was: no call reaches it. A string that matches is looked up by
  one call, with the uppercased code (which, for a string of that format, is the string
  itself). When the store serves the call and no row has the code, the answer is "not
  found", not an error; when exactly one row has it, the answer is that row; when the
  store fails with any error other than "no rows", the call fails with
  \<open>DATABASE_ERROR\<close>, which is not the "not found" answer.
\<close>

theorem getListByCode_lookup:
  "(\<not> isValidListCodeFormat code \<longrightarrow> getListByCode code s = (Inr None, s))
   \<and> (isValidListCodeFormat code \<longrightarrow>
        toUpperCase code = code
      \<and> snd (getListByCode code s) = received (SelectList (toUpperCase code)) s
      \<and> calls (snd (getListByCode code s)) = calls s @ [SelectList (toUpperCase code)]
      \<and> (outage s (SelectList (toUpperCase code)) = None
           \<and> filter (\<lambda>l. l_code l = toUpperCase code) (tbl_lists s) = []
           \<longrightarrow> fst (getListByCode code s) = Inr None)
      \<and> (\<forall>row. outage s (SelectList (toUpperCase code)) = None
           \<and> filter (\<lambda>l. l_code l = toUpperCase code) (tbl_lists s) = [row]
           \<longrightarrow> fst (getListByCode code s) = Inr (Some row))
      \<and> (\<forall>e. outage s (SelectList (toUpperCase code)) = Some e \<and> e \<noteq> ''PGRST116''
           \<longrightarrow> fst (getListByCode code s) = Inl (ApiError DATABASE_ERROR (Some e))))"
proof (cases "isValidListCodeFormat code")
  case False
  then show ?thesis by (simp add: getListByCode_invalid)
next
  case True
  then show ?thesis
    by (simp add: getListByCode_valid toUpperCase_valid calls_received)
qed

lemma valid_examples:
  "\<not> isValidListCodeFormat ''gro-a1b2c3d''" "isValidListCodeFormat ''GRO-A1B2C3D''"
  "isValidListCodeFormat ''GRO-ZZZZZZZ''"
  by (simp_all add: isValidListCodeFormat_def upper_letters_def digits_def)

theorem getListByCode_lookup_witness:
  "\<not> isValidListCodeFormat ''gro-a1b2c3d''
   \<and> getListByCode ''gro-a1b2c3d'' fresh_list = (Inr None, fresh_list)
   \<and> isValidListCodeFormat ''GRO-A1B2C3D''
   \<and> fst (getListByCode ''GRO-A1B2C3D'' fresh_list) =
        Inr (Some \<lparr>l_id = ''L'', l_code = ''GRO-A1B2C3D'', l_created_at = ''t0''\<rparr>)
   \<and> fst (getListByCode ''GRO-ZZZZZZZ'' fresh_list) = Inr None
   \<and> fst (getListByCode ''GRO-A1B2C3D'' (fresh_list\<lparr>outage := \<lambda>c. Some ''08006''\<rparr>)) =
        Inl (ApiError DATABASE_ERROR (Some ''08006''))"
proof -
  have a: "getListByCode ''gro-a1b2c3d'' fresh_list = (Inr None, fresh_list)"
    using getListByCode_lookup [of "''gro-a1b2c3d''" fresh_list] valid_examples by simp
  have u: "toUpperCase ''GRO-A1B2C3D'' = ''GRO-A1B2C3D''" "toUpperCase ''GRO-ZZZZZZZ'' = ''GRO-ZZZZZZZ''"
    using getListByCode_lookup [of "''GRO-A1B2C3D''" fresh_list]
      getListByCode_lookup [of "''GRO-ZZZZZZZ''" fresh_list] valid_examples by simp_all
  have b: "fst (getListByCode ''GRO-A1B2C3D'' fresh_list) =
        Inr (Some \<lparr>l_id = ''L'', l_code = ''GRO-A1B2C3D'', l_created_at = ''t0''\<rparr>)"
    using getListByCode_lookup [of "''GRO-A1B2C3D''" fresh_list] valid_examples
    by (simp add: u fresh_list_def)
  have c: "fst (getListByCode ''GRO-ZZZZZZZ'' fresh_list) = Inr None"
    using getListByCode_lookup [of "''GRO-ZZZZZZZ''" fresh_list] valid_examples
    by (simp add: u fresh_list_def)
  have d: "fst (getListByCode ''GRO-A1B2C3D'' (fresh_list\<lparr>outage := \<lambda>c. Some ''08006''\<rparr>)) =
        Inl (ApiError DATABASE_ERROR (Some ''08006''))"
    using getListByCode_lookup [of "''GRO-A1B2C3D''" "fresh_list\<lparr>outage := \<lambda>c. Some ''08006''\<rparr>"]
      valid_examples
    by (simp add: u)
  from a b c d valid_examples show ?thesis by simp
qed

section \<open>addItem\<close>

lemma trim_Nil: "trim [] = []"
  by (simp add: trim_def)

lemma last_trim:
  assumes "trim s \<noteq> []"
  shows "\<not> is_space (last (trim s))"
proof -
  let ?ys = "dropWhile is_space (rev (dropWhile is_space s))"
  from assms have ne: "?ys \<noteq> []" by (simp add: trim_def)
  then have "last (trim s) = hd ?ys" by (simp add: trim_def last_rev)
  with hd_dropWhile [OF ne] show ?thesis by simp
qed

lemma varchar_trim: "varchar n (trim s) = Some v \<Longrightarrow> v = trim s"
proof (cases "length (trim s) \<le> n")
  case True
  assume "varchar n (trim s) = Some v"
  with True show ?thesis by (simp add: varchar_def)
next
  case False
  assume v: "varchar n (trim s) = Some v"
  from False have ne: "drop n (trim s) \<noteq> []" "trim s \<noteq> []" by auto
  then have "last (drop n (trim s)) = last (trim s)" by simp
  with last_trim [OF ne(2)] have "last (drop n (trim s)) \<noteq> CHR '' ''"
    by (auto simp: is_space_def)
  moreover from ne(1) have "last (drop n (trim s)) \<in> set (drop n (trim s))"
    by (rule last_in_set)
  ultimately have "\<not> list_all (\<lambda>c. c = CHR '' '') (drop n (trim s))"
    unfolding list_all_iff by blast
  with False v show ?thesis by (simp add: varchar_def)
qed

lemma varchar_short: "length v \<le> n \<Longrightarrow> varchar n v = Some v"
  by (simp add: varchar_def)

lemma addItem_invalid:
  "trim name = [] \<or> trim category = [] \<Longrightarrow>
     addItem listId name category s = (Inl (ApiError INVALID_INPUT None), s)"
  by (auto simp: addItem_def isValidItemName_def)

lemma addItem_valid:
  "trim name \<noteq> [] \<Longrightarrow> trim category \<noteq> [] \<Longrightarrow>
     addItem listId name category s =
       (case insert_item listId (trim name) category False s of
          (Inl e, s') \<Rightarrow> (Inl (ApiError DATABASE_ERROR (Some e)), s')
        | (Inr data, s') \<Rightarrow> (Inr data, s'))"
  by (auto simp: addItem_def isValidItemName_def trim_Nil)

lemma insert_item_calls:
  "calls (snd (insert_item listId name category b s)) = calls s @ [InsertItem listId name category b]"
  by (simp add: insert_item_def Let_def calls_received split: option.splits prod.splits)

lemma insert_item_Inl:
  "insert_item listId name category b s = (Inl e, s') \<Longrightarrow> tbl_items s' = tbl_items s"
  by (auto simp: insert_item_def Let_def tbl_received split: option.splits prod.splits if_splits)

lemma insert_item_Inr:
  "insert_item listId name category b s = (Inr row, s') \<Longrightarrow>
     tbl_items s' = tbl_items s @ [row] \<and> bought row = b \<and> item_list_id row = listId
     \<and> varchar 255 name = Some (item_name row) \<and> varchar 100 category = Some (item_category row)
     \<and> list_ex (\<lambda>l. l_id l = listId) (tbl_lists s)"
  by (auto simp: insert_item_def Let_def tbl_received split: option.splits prod.splits if_splits)

lemma insert_item_ok:
  "outage s (InsertItem listId name category b) = None \<Longrightarrow>
   list_ex (\<lambda>l. l_id l = listId) (tbl_lists s) \<Longrightarrow>
   varchar 255 name \<noteq> None \<Longrightarrow> varchar 100 category \<noteq> None \<Longrightarrow>
   \<exists>row. fst (insert_item listId name category b s) = Inr row"
  by (auto simp: insert_item_def Let_def)

lemma insert_item_categories:
  "fst (insert_item listId name category b (s\<lparr>tbl_categories := cs\<rparr>)) =
   fst (insert_item listId name category b s)"
  by (simp add: insert_item_def Let_def received_def split: option.splits prod.splits)

text \<open>
  C6, as stated, fails: a call with a valid name and category does not always succeed.
  Here the store cannot serve the insert (the connection fails, code 08006), and
  \<open>addItem\<close> throws \<open>DATABASE_ERROR\<close>.
\<close>

theorem addItem_valid_input_can_fail:
  "trim ''milk'' \<noteq> [] \<and> trim ''Altro'' \<noteq> []
   \<and> fst (addItem ''L'' ''milk'' ''Altro'' (fresh_list\<lparr>outage := \<lambda>c. Some ''08006''\<rparr>)) =
        Inl (ApiError DATABASE_ERROR (Some ''08006''))"
  by (simp add: addItem_def isValidItemName_def trim_def is_space_def insert_item_def
      received_def)

lemma addItem_valid_fst:
  "trim name \<noteq> [] \<Longrightarrow> trim category \<noteq> [] \<Longrightarrow>
     fst (addItem listId name category s) =
       (case fst (insert_item listId (trim name) category False s) of
          Inl e \<Rightarrow> Inl (ApiError DATABASE_ERROR (Some e)) | Inr data \<Rightarrow> Inr data)"
  by (simp add: addItem_valid split: prod.splits sum.splits)

lemma addItem_valid_snd:
  "trim name \<noteq> [] \<Longrightarrow> trim category \<noteq> [] \<Longrightarrow>
     snd (addItem listId name category s) = snd (insert_item listId (trim name) category False s)"
  by (simp add: addItem_valid split: prod.splits sum.splits)

text \<open>
  C6, amended. When the name or the category is empty after trimming (of
  JavaScript's white space, the no-break space U+00A0 included), \<open>addItem\<close>
  fails with \<open>INVALID_INPUT\<close> and the store is as it was: no call reached it.
  Otherwise \<open>INVALID_INPUT\<close> is not the outcome: exactly one call reaches the
  store, the insert of the trimmed name with the category as given and
  \<open>bought = false\<close>. If the store accepts it, the call succeeds and the created
  item has \<open>bought = false\<close> and the trimmed name; if not, the call fails with
  \<open>DATABASE_ERROR\<close> and no item is added. The store accepts it when it serves
  the call, the list exists and both strings fit their columns. The categories table
  has no influence on the outcome.
\<close>

theorem addItem_validation:
  "(trim name = [] \<or> trim category = [] \<longrightarrow>
      addItem listId name category s = (Inl (ApiError INVALID_INPUT None), s))
   \<and> (trim name \<noteq> [] \<and> trim category \<noteq> [] \<longrightarrow>
        calls (snd (addItem listId name category s)) =
          calls s @ [InsertItem listId (trim name) category False]
      \<and> (case fst (addItem listId name category s) of
            Inr item \<Rightarrow> bought item = False \<and> item_name item = trim name
                       \<and> item_list_id item = listId
                       \<and> tbl_items (snd (addItem listId name category s)) = tbl_items s @ [item]
          | Inl err \<Rightarrow> error_code err = DATABASE_ERROR
                       \<and> tbl_items (snd (addItem listId name category s)) = tbl_items s)
      \<and> (outage s (InsertItem listId (trim name) category False) = None
           \<and> list_ex (\<lambda>l. l_id l = listId) (tbl_lists s)
           \<and> length (trim name) \<le> 255 \<and> length category \<le> 100
           \<longrightarrow> (\<exists>item. fst (addItem listId name category s) = Inr item))
      \<and> fst (addItem listId name category (s\<lparr>tbl_categories := cs\<rparr>)) =
          fst (addItem listId name category s))"
proof (cases "trim name = [] \<or> trim category = []")
  case True
  then show ?thesis by (auto simp: addItem_invalid)
next
  case False
  then have v: "trim name \<noteq> []" "trim category \<noteq> []" by simp_all
  let ?r = "insert_item listId (trim name) category False s"
  obtain x s' where r: "?r = (x, s')" by (cases ?r)
  have c: "calls (snd (addItem listId name category s)) =
          calls s @ [InsertItem listId (trim name) category False]"
    using insert_item_calls [of listId "trim name" category False s] r
    by (simp add: addItem_valid [OF v] split: sum.splits)
  have k: "(case fst (addItem listId name category s) of
            Inr item \<Rightarrow> bought item = False \<and> item_name item = trim name
                       \<and> item_list_id item = listId
                       \<and> tbl_items (snd (addItem listId name category s)) = tbl_items s @ [item]
          | Inl err \<Rightarrow> error_code err = DATABASE_ERROR
                       \<and> tbl_items (snd (addItem listId name category s)) = tbl_items s)"
  proof (cases x)
    case (Inl e)
    with r insert_item_Inl [of listId "trim name" category False s e s'] show ?thesis
      by (simp add: addItem_valid [OF v])
  next
    case (Inr row)
    with r insert_item_Inr [of listId "trim name" category False s row s']
      varchar_trim [of 255 name "item_name row"]
    show ?thesis
      by (simp add: addItem_valid [OF v])
  qed
  have o: "outage s (InsertItem listId (trim name) category False) = None
           \<and> list_ex (\<lambda>l. l_id l = listId) (tbl_lists s)
           \<and> length (trim name) \<le> 255 \<and> length category \<le> 100
           \<longrightarrow> (\<exists>item. fst (addItem listId name category s) = Inr item)"
  proof
    assume h: "outage s (InsertItem listId (trim name) category False) = None
           \<and> list_ex (\<lambda>l. l_id l = listId) (tbl_lists s)
           \<and> length (trim name) \<le> 255 \<and> length category \<le> 100"
    then have "\<exists>row. fst ?r = Inr row"
      by (intro insert_item_ok) (simp_all add: varchar_short)
    then show "\<exists>item. fst (addItem listId name category s) = Inr item"
      using r by (auto simp: addItem_valid [OF v])
  qed
  have i: "fst (addItem listId name category (s\<lparr>tbl_categories := cs\<rparr>)) =
          fst (addItem listId name category s)"
    by (simp add: addItem_valid_fst [OF v] insert_item_categories)
  from False c k o i show ?thesis by simp
qed

lemma trim_examples:
  "trim ''   '' = []" "trim '' milk '' = ''milk''" "trim ''Altro'' = ''Altro''"
  "trim '' X '' = ''X''" "trim [CHR 0xA0] = []"
  by (simp_all add: trim_def is_space_def)

theorem addItem_validation_witness:
  "addItem ''L'' ''   '' ''Altro'' fresh_list = (Inl (ApiError INVALID_INPUT None), fresh_list)
   \<and> addItem ''L'' ''milk'' [CHR 0xA0] fresh_list = (Inl (ApiError INVALID_INPUT None), fresh_list)
   \<and> trim '' milk '' \<noteq> [] \<and> trim ''Altro'' \<noteq> []
   \<and> calls (snd (addItem ''L'' '' milk '' ''Altro'' fresh_list)) =
        [InsertItem ''L'' ''milk'' ''Altro'' False]
   \<and> (\<exists>item. fst (addItem ''L'' '' milk '' ''Altro'' fresh_list) = Inr item)"
proof -
  have a: "addItem ''L'' ''   '' ''Altro'' fresh_list = (Inl (ApiError INVALID_INPUT None), fresh_list)"
    using addItem_validation [of "''   ''" "''Altro''" "''L''" fresh_list] trim_examples by simp
  have b: "addItem ''L'' ''milk'' [CHR 0xA0] fresh_list = (Inl (ApiError INVALID_INPUT None), fresh_list)"
    using addItem_validation [of "''milk''" "[CHR 0xA0]" "''L''" fresh_list] trim_examples by simp
  have p: "outage fresh_list (InsertItem ''L'' ''milk'' ''Altro'' False) = None"
    "list_ex (\<lambda>l. l_id l = ''L'') (tbl_lists fresh_list)" "calls fresh_list = []"
    by (simp_all add: fresh_list_def)
  from addItem_validation [of "'' milk ''" "''Altro''" "''L''" fresh_list] trim_examples p
  have "calls (snd (addItem ''L'' '' milk '' ''Altro'' fresh_list)) =
        [InsertItem ''L'' ''milk'' ''Altro'' False]
     \<and> (\<exists>item. fst (addItem ''L'' '' milk '' ''Altro'' fresh_list) = Inr item)"
    by simp
  with a b trim_examples show ?thesis by simp
qed

section \<open>The category an item is created with\<close>

text \<open>
  C10, as stated, fails for a category longer than its column: the category column is
  \<open>VARCHAR(100)\<close>, and a longer value whose excess is all spaces is stored cut to
  100 characters. Here the argument has 101 characters and the created item has 100.
\<close>

theorem addItem_long_category_is_cut:
  "fst (addItem ''L'' ''milk'' (CHR ''X'' # replicate 100 (CHR '' '')) fresh_list) =
     Inr \<lparr>item_id = ''id-'', item_list_id = ''L'', item_name = ''milk'',
          item_category = CHR ''X'' # replicate 99 (CHR '' ''), bought = False,
          item_created_at = ''t''\<rparr>"
  by code_simp

lemma addItem_Inr:
  assumes ok: "addItem listId name category s = (Inr item, s')"
  shows "trim name \<noteq> [] \<and> trim category \<noteq> []
     \<and> insert_item listId (trim name) category False s = (Inr item, s')"
proof -
  from ok have v: "trim name \<noteq> []" "trim category \<noteq> []"
    using addItem_invalid [of name category listId s] by auto
  with ok show ?thesis
    by (auto simp: addItem_valid split: prod.splits sum.splits)
qed

text \<open>
  C10, amended. When \<open>addItem\<close> succeeds with a category of at most 100 characters
  (the width of the column), the created item's category is the argument as given:
  not trimmed, not case-normalised. \<open>groupItemsByCategory\<close> puts the item in no
  group whose category has another name; so when the argument has leading or trailing
  white space (it differs from its trimmed form, as \<open>'' X ''\<close> does), the item
  is not in the group of the category with the trimmed name.
\<close>

theorem addItem_category_verbatim:
  fixes key :: "string \<Rightarrow> 'k::linorder"
  assumes ok: "addItem listId name category s = (Inr item, s')"
    and len: "length category \<le> 100"
  shows "item_category item = category \<and> trim category \<noteq> []
     \<and> (\<forall>g\<in>set (groupItemsByCategory key items cats).
           cat_name (cwi_category g) \<noteq> category \<longrightarrow> item \<notin> set (cwi_items g))
     \<and> (category \<noteq> trim category \<longrightarrow>
          (\<forall>g\<in>set (groupItemsByCategory key items cats).
             cat_name (cwi_category g) = trim category \<longrightarrow> item \<notin> set (cwi_items g)))"
proof -
  from addItem_Inr [OF ok] insert_item_Inr [of listId "trim name" category False s item s'] len
  have c: "item_category item = category" and v: "trim category \<noteq> []"
    by (simp_all add: varchar_short)
  have g: "\<forall>g\<in>set (groupItemsByCategory key items cats).
           cat_name (cwi_category g) \<noteq> category \<longrightarrow> item \<notin> set (cwi_items g)"
    using group_items [of _ key items cats] c by auto
  then have "category \<noteq> trim category \<longrightarrow>
          (\<forall>g\<in>set (groupItemsByCategory key items cats).
             cat_name (cwi_category g) = trim category \<longrightarrow> item \<notin> set (cwi_items g))"
    by auto
  with c v g show ?thesis by simp
qed

lemma addItem_X:
  "fst (addItem ''L'' ''milk'' '' X '' fresh_list) =
     Inr \<lparr>item_id = ''id-'', item_list_id = ''L'', item_name = ''milk'',
          item_category = '' X '', bought = False, item_created_at = ''t''\<rparr>"
  by code_simp

lemma group_example2:
  "groupItemsByCategory length
     [\<lparr>item_id = ''id-'', item_list_id = ''L'', item_name = ''milk'',
       item_category = '' X '', bought = False, item_created_at = ''t''\<rparr>, chips]
     [snacks\<lparr>cat_name := ''X''\<rparr>, snacks] =
   [\<lparr>cwi_category = snacks, cwi_items = [chips]\<rparr>]"
  by (simp add: groupItemsByCategory_def itemsByCategory_def add_to_group_def has_items_def
      sortCategories_def Array_sort_def chips_def snacks_def)

theorem addItem_category_verbatim_witness:
  "fst (addItem ''L'' ''milk'' '' X '' fresh_list) =
     Inr \<lparr>item_id = ''id-'', item_list_id = ''L'', item_name = ''milk'',
          item_category = '' X '', bought = False, item_created_at = ''t''\<rparr>
   \<and> length '' X '' \<le> 100 \<and> '' X '' \<noteq> trim '' X ''
   \<and> list_all (\<lambda>g. \<lparr>item_id = ''id-'', item_list_id = ''L'', item_name = ''milk'',
          item_category = '' X '', bought = False, item_created_at = ''t''\<rparr> \<notin> set (cwi_items g))
        (groupItemsByCategory length
           [\<lparr>item_id = ''id-'', item_list_id = ''L'', item_name = ''milk'',
             item_category = '' X '', bought = False, item_created_at = ''t''\<rparr>, chips]
           [snacks\<lparr>cat_name := ''X''\<rparr>, snacks])"
proof -
  let ?it = "\<lparr>item_id = ''id-'', item_list_id = ''L'', item_name = ''milk'',
          item_category = '' X '', bought = False, item_created_at = ''t''\<rparr>"
  have ok: "addItem ''L'' ''milk'' '' X '' fresh_list =
              (Inr ?it, snd (addItem ''L'' ''milk'' '' X '' fresh_list))"
    using addItem_X by (simp add: prod_eq_iff)
  have n: "\<forall>g\<in>set (groupItemsByCategory length [?it, chips] [snacks\<lparr>cat_name := ''X''\<rparr>, snacks]).
              cat_name (cwi_category g) \<noteq> '' X ''"
    unfolding group_example2 by (simp add: snacks_def)
  from addItem_category_verbatim [OF ok, of length "[?it, chips]" "[snacks\<lparr>cat_name := ''X''\<rparr>, snacks]"] n
  have "\<forall>g\<in>set (groupItemsByCategory length [?it, chips] [snacks\<lparr>cat_name := ''X''\<rparr>, snacks]).
           ?it \<notin> set (cwi_items g)"
    by simp
  then show ?thesis
    using addItem_X by (simp add: list_all_iff trim_examples)
qed

section \<open>deleteCategory\<close>

lemma select_category_found:
  "outage s (SelectCategory categoryId) = None \<Longrightarrow>
   filter (\<lambda>c. cat_id c = categoryId) (tbl_categories s) = [category] \<Longrightarrow>
   select_category categoryId s = (Inr category, received (SelectCategory categoryId) s)"
  by (simp add: select_category_def single_def)

lemma deleteCategory_default:
  assumes "outage s (SelectCategory categoryId) = None"
    and "filter (\<lambda>c. cat_id c = categoryId) (tbl_categories s) = [category]"
    and "is_default category"
  shows "deleteCategory categoryId listId s =
           (Inl (ApiError INVALID_INPUT None), received (SelectCategory categoryId) s)"
  using assms by (simp add: deleteCategory_def select_category_found)

lemma deleteCategory_custom:
  assumes "outage s (SelectCategory categoryId) = None"
    and "filter (\<lambda>c. cat_id c = categoryId) (tbl_categories s) = [category]"
    and "\<not> is_default category"
    and "outage s (UpdateItems listId (cat_name category) ''Altro'') = None"
    and "outage s (DeleteCategory categoryId) = None"
  shows "deleteCategory categoryId listId s =
           (Inr (),
            s\<lparr>calls := calls s @ [SelectCategory categoryId,
                                   UpdateItems listId (cat_name category) ''Altro'',
                                   DeleteCategory categoryId],
              tbl_items := map (\<lambda>i. if item_list_id i = listId \<and> item_category i = cat_name category
                                     then i\<lparr>item_category := ''Altro''\<rparr> else i) (tbl_items s),
              tbl_categories := filter (\<lambda>c. cat_id c \<noteq> categoryId) (tbl_categories s)\<rparr>)"
  using assms
  by (simp add: deleteCategory_def select_category_found update_items_def delete_category_def
      DEFAULT_REASSIGNMENT_CATEGORY_def received_def Let_def)

lemma deleteCategory_update_fails:
  assumes "outage s (SelectCategory categoryId) = None"
    and "filter (\<lambda>c. cat_id c = categoryId) (tbl_categories s) = [category]"
    and "\<not> is_default category"
    and "outage s (UpdateItems listId (cat_name category) ''Altro'') = Some e"
  shows "deleteCategory categoryId listId s =
           (Inl (ApiError DATABASE_ERROR (Some e)),
            s\<lparr>calls := calls s @ [SelectCategory categoryId,
                                   UpdateItems listId (cat_name category) ''Altro'']\<rparr>)"
  using assms
  by (simp add: deleteCategory_def select_category_found update_items_def
      DEFAULT_REASSIGNMENT_CATEGORY_def received_def Let_def)

text \<open>
  C4. Let the fetch find the category. If it is a default category, the deletion is
  rejected with \<open>INVALID_INPUT\<close>, the three tables are as they were, and the fetch
  is the only call the store received. If it is a custom category and the store serves
  the calls, the deletion succeeds; the store received the fetch, then the reassignment
  of the items, then the deletion of the row, in this order; the category is gone and
  the other categories are as they were; the items are as many as before, every item of
  that list whose category was the category's name now has the category \<open>Altro\<close>
  and is otherwise unchanged, and every other item is unchanged. If the reassignment
  fails, the error is surfaced, the deletion is not attempted and the category is
  still there.
\<close>

theorem deleteCategory_reassigns_then_deletes:
  assumes f: "outage s (SelectCategory categoryId) = None"
    and c: "filter (\<lambda>c. cat_id c = categoryId) (tbl_categories s) = [category]"
    and r: "deleteCategory categoryId listId s = (res, s')"
  shows "(is_default category \<longrightarrow>
            res = Inl (ApiError INVALID_INPUT None)
          \<and> tbl_lists s' = tbl_lists s \<and> tbl_categories s' = tbl_categories s
          \<and> tbl_items s' = tbl_items s
          \<and> calls s' = calls s @ [SelectCategory categoryId])
     \<and> (\<not> is_default category
          \<and> outage s (UpdateItems listId (cat_name category) ''Altro'') = None
          \<and> outage s (DeleteCategory categoryId) = None \<longrightarrow>
            res = Inr ()
          \<and> calls s' = calls s @ [SelectCategory categoryId,
                                   UpdateItems listId (cat_name category) ''Altro'',
                                   DeleteCategory categoryId]
          \<and> tbl_categories s' = filter (\<lambda>c. cat_id c \<noteq> categoryId) (tbl_categories s)
          \<and> category \<notin> set (tbl_categories s')
          \<and> length (tbl_items s') = length (tbl_items s)
          \<and> (\<forall>k < length (tbl_items s).
                tbl_items s' ! k =
                  (if item_list_id (tbl_items s ! k) = listId
                      \<and> item_category (tbl_items s ! k) = cat_name category
                   then (tbl_items s ! k)\<lparr>item_category := ''Altro''\<rparr>
                   else tbl_items s ! k)))
     \<and> (\<forall>e. \<not> is_default category
          \<and> outage s (UpdateItems listId (cat_name category) ''Altro'') = Some e \<longrightarrow>
            res = Inl (ApiError DATABASE_ERROR (Some e))
          \<and> tbl_categories s' = tbl_categories s \<and> tbl_items s' = tbl_items s
          \<and> calls s' = calls s @ [SelectCategory categoryId,
                                   UpdateItems listId (cat_name category) ''Altro''])"
proof -
  from c have m: "category \<in> set (filter (\<lambda>c. cat_id c = categoryId) (tbl_categories s))"
    by simp
  then have id: "cat_id category = categoryId" by simp
  have a: "is_default category \<longrightarrow>
            res = Inl (ApiError INVALID_INPUT None)
          \<and> tbl_lists s' = tbl_lists s \<and> tbl_categories s' = tbl_categories s
          \<and> tbl_items s' = tbl_items s
          \<and> calls s' = calls s @ [SelectCategory categoryId]"
    using deleteCategory_default [OF f c, of listId] r by (auto simp: received_def)
  have b: "\<not> is_default category
          \<and> outage s (UpdateItems listId (cat_name category) ''Altro'') = None
          \<and> outage s (DeleteCategory categoryId) = None \<longrightarrow>
            res = Inr ()
          \<and> calls s' = calls s @ [SelectCategory categoryId,
                                   UpdateItems listId (cat_name category) ''Altro'',
                                   DeleteCategory categoryId]
          \<and> tbl_categories s' = filter (\<lambda>c. cat_id c \<noteq> categoryId) (tbl_categories s)
          \<and> category \<notin> set (tbl_categories s')
          \<and> length (tbl_items s') = length (tbl_items s)
          \<and> (\<forall>k < length (tbl_items s).
                tbl_items s' ! k =
                  (if item_list_id (tbl_items s ! k) = listId
                      \<and> item_category (tbl_items s ! k) = cat_name category
                   then (tbl_items s ! k)\<lparr>item_category := ''Altro''\<rparr>
                   else tbl_items s ! k))"
    using deleteCategory_custom [OF f c, of listId] r id by auto
  have d: "\<forall>e. \<not> is_default category
          \<and> outage s (UpdateItems listId (cat_name category) ''Altro'') = Some e \<longrightarrow>
            res = Inl (ApiError DATABASE_ERROR (Some e))
          \<and> tbl_categories s' = tbl_categories s \<and> tbl_items s' = tbl_items s
          \<and> calls s' = calls s @ [SelectCategory categoryId,
                                   UpdateItems listId (cat_name category) ''Altro'']"
    using deleteCategory_update_fails [OF f c, of listId] r by auto
  from a b d show ?thesis by (intro conjI) assumption+
qed

lemma snacks_store_facts:
  "outage snacks_store c = None"
  "filter (\<lambda>c. cat_id c = ''c7'') (tbl_categories snacks_store) = [snacks]"
  "filter (\<lambda>c. cat_id c = ''cat-Altro'') (tbl_categories snacks_store) =
     [\<lparr>cat_id = ''cat-Altro'', cat_list_id = ''L'', cat_name = ''Altro'', is_default = True,
       display_order = 6, cat_created_at = ''t0''\<rparr>]"
  "filter (\<lambda>c. cat_id c \<noteq> ''c7'') (tbl_categories snacks_store) = categoriesData ''L''"
  "tbl_items snacks_store = [milk, chips]" "calls snacks_store = []"
  by (simp_all add: snacks_store_def fresh_list_def categoriesData_def DEFAULT_CATEGORIES_def
      snacks_def)

theorem deleteCategory_reassigns_then_deletes_witness:
  "filter (\<lambda>c. cat_id c = ''c7'') (tbl_categories snacks_store) = [snacks]
   \<and> \<not> is_default snacks
   \<and> fst (deleteCategory ''c7'' ''L'' snacks_store) = Inr ()
   \<and> calls (snd (deleteCategory ''c7'' ''L'' snacks_store)) =
        [SelectCategory ''c7'', UpdateItems ''L'' ''Snacks'' ''Altro'', DeleteCategory ''c7'']
   \<and> tbl_categories (snd (deleteCategory ''c7'' ''L'' snacks_store)) = categoriesData ''L''
   \<and> length (tbl_items (snd (deleteCategory ''c7'' ''L'' snacks_store))) = 2
   \<and> tbl_items (snd (deleteCategory ''c7'' ''L'' snacks_store)) ! 0 = milk
   \<and> tbl_items (snd (deleteCategory ''c7'' ''L'' snacks_store)) ! 1 = chips\<lparr>item_category := ''Altro''\<rparr>
   \<and> fst (deleteCategory ''cat-Altro'' ''L'' snacks_store) = Inl (ApiError INVALID_INPUT None)
   \<and> tbl_categories (snd (deleteCategory ''cat-Altro'' ''L'' snacks_store)) = tbl_categories snacks_store"
proof -
  have n: "\<not> is_default snacks" "cat_name snacks = ''Snacks''" by (simp_all add: snacks_def)
  have i: "item_list_id milk = ''L''" "item_category milk = ''Latticini''"
    "item_list_id chips = ''L''" "item_category chips = ''Snacks''"
    by (simp_all add: milk_def chips_def)
  from deleteCategory_reassigns_then_deletes [OF snacks_store_facts(1) snacks_store_facts(2),
      of "''L''" "fst (deleteCategory ''c7'' ''L'' snacks_store)"
         "snd (deleteCategory ''c7'' ''L'' snacks_store)"]
  have a: "fst (deleteCategory ''c7'' ''L'' snacks_store) = Inr ()
   \<and> calls (snd (deleteCategory ''c7'' ''L'' snacks_store)) =
        [SelectCategory ''c7'', UpdateItems ''L'' ''Snacks'' ''Altro'', DeleteCategory ''c7'']
   \<and> tbl_categories (snd (deleteCategory ''c7'' ''L'' snacks_store)) = categoriesData ''L''
   \<and> length (tbl_items (snd (deleteCategory ''c7'' ''L'' snacks_store))) = 2
   \<and> tbl_items (snd (deleteCategory ''c7'' ''L'' snacks_store)) ! 0 = milk
   \<and> tbl_items (snd (deleteCategory ''c7'' ''L'' snacks_store)) ! 1 = chips\<lparr>item_category := ''Altro''\<rparr>"
    by (simp add: n i snacks_store_facts)
  from deleteCategory_reassigns_then_deletes [OF snacks_store_facts(1) snacks_store_facts(3),
      of "''L''" "fst (deleteCategory ''cat-Altro'' ''L'' snacks_store)"
         "snd (deleteCategory ''cat-Altro'' ''L'' snacks_store)"]
  have b: "fst (deleteCategory ''cat-Altro'' ''L'' snacks_store) = Inl (ApiError INVALID_INPUT None)
   \<and> tbl_categories (snd (deleteCategory ''cat-Altro'' ''L'' snacks_store)) = tbl_categories snacks_store"
    by simp
  from a b n snacks_store_facts(2) show ?thesis by simp
qed

section \<open>createCategory\<close>

text \<open>
  C2 on the code. The query for the highest \<open>display_order\<close> reads all categories
  of the list, the defaults included. In a list that holds the six default categories
  (orders 1 to 6) and no custom category, the first custom category gets 7, not 100.
\<close>

theorem createCategory_first_custom_gets_7:
  "fst (createCategory ''L'' ''Snacks'' fresh_list) =
     Inr \<lparr>cat_id = ''id-xx'', cat_list_id = ''L'', cat_name = ''Snacks'', is_default = False,
          display_order = 7, cat_created_at = ''txx''\<rparr>"
  by code_simp

text \<open>
  For a name without pattern characters the duplicate check is what its documentation
  says: it finds the categories of the list whose name equals the trimmed name up to
  the case of letters.
\<close>

lemma like_plain:
  "list_all (\<lambda>c. c \<noteq> CHR ''%'' \<and> c \<noteq> CHR ''_'' \<and> c \<noteq> CHR 0x5C) p \<Longrightarrow> like p t = Some (p = t)"
proof (induction p arbitrary: t)
  case Nil
  show ?case by (cases t) simp_all
next
  case (Cons a p)
  then show ?case by (cases t) auto
qed

lemma toLowerChar_plain_all:
  "list_all (\<lambda>c. toLowerChar c \<noteq> CHR ''%'' \<and> toLowerChar c \<noteq> CHR ''_'' \<and> toLowerChar c \<noteq> CHR 0x5C)
     upper_letters"
  by (simp add: toLowerChar_def upper_letters_def lower_letters_def)

lemma toLowerChar_plain:
  assumes "c \<noteq> CHR ''%''" "c \<noteq> CHR ''_''" "c \<noteq> CHR 0x5C"
  shows "toLowerChar c \<noteq> CHR ''%'' \<and> toLowerChar c \<noteq> CHR ''_'' \<and> toLowerChar c \<noteq> CHR 0x5C"
proof (cases "c \<in> set upper_letters")
  case True
  with toLowerChar_plain_all show ?thesis unfolding list_all_iff by blast
next
  case False
  then have "map_of (zip upper_letters lower_letters) c = None"
    by (simp add: map_of_zip_is_None upper_letters_def lower_letters_def)
  with assms show ?thesis by (simp add: toLowerChar_def)
qed

lemma ilike_plain:
  assumes "plain p"
  shows "ilike p v = Some (toLowerCase p = toLowerCase v)"
proof -
  from assms have m: "map (\<lambda>c. if c = CHR ''*'' then CHR ''%'' else c) p = p"
    by (induction p) (auto simp: plain_def)
  from assms have "list_all (\<lambda>c. c \<noteq> CHR ''%'' \<and> c \<noteq> CHR ''_'' \<and> c \<noteq> CHR 0x5C) (toLowerCase p)"
    using toLowerChar_plain by (induction p) (auto simp: plain_def toLowerCase_def)
  then show ?thesis by (simp add: ilike_def m like_plain)
qed

lemma categoryNameExists_plain:
  assumes "outage s (SelectCategoryIds listId (trim name)) = None" and "plain (trim name)"
  shows "fst (categoryNameExists listId name s) =
           Inr (list_ex (\<lambda>c. cat_list_id c = listId \<and> toLowerCase (cat_name c) = toLowerCase (trim name))
                  (tbl_categories s))"
  using assms
  by (auto simp: categoryNameExists_def select_category_ids_def ilike_plain list_ex_iff
      filter_empty_conv)

text \<open>
  C7 on the code. The duplicate check hands the trimmed name to \<open>ILIKE\<close> as a
  pattern. In the list with the six default categories, the name \<open>A%\<close> is the
  name of no category (not even ignoring case and surrounding white space), yet it is
  rejected as a duplicate, because as a pattern it matches \<open>Altro\<close>. And a name
  with a backslash is not found by its own pattern: created once, creating it again
  passes the check and fails at the insert, on the uniqueness constraint, with
  \<open>DATABASE_ERROR\<close> instead of \<open>DUPLICATE_CATEGORY\<close>.
\<close>

theorem createCategory_duplicate_check_is_a_pattern:
  "fst (createCategory ''L'' ''A%'' fresh_list) = Inl (ApiError DUPLICATE_CATEGORY None)
   \<and> \<not> list_ex (\<lambda>c. toLowerCase (trim (cat_name c)) = toLowerCase (trim ''A%''))
          (tbl_categories fresh_list)
   \<and> fst (createCategory ''L'' (''a'' @ [CHR 0x5C] @ ''b'') fresh_list) =
     Inr \<lparr>cat_id = ''id-xx'', cat_list_id = ''L'', cat_name = ''a'' @ [CHR 0x5C] @ ''b'',
          is_default = False, display_order = 7, cat_created_at = ''txx''\<rparr>
   \<and> fst (createCategory ''L'' (''a'' @ [CHR 0x5C] @ ''b'')
         (snd (createCategory ''L'' (''a'' @ [CHR 0x5C] @ ''b'') fresh_list))) =
     Inl (ApiError DATABASE_ERROR (Some ''23505''))"
  by code_simp

section \<open>Serialization round trip\<close>

lemma control_table: "list_all (\<lambda>n. map_of escape_table (char_of n) \<noteq> None) [0..<32]"
  by code_simp

lemma control_in_table:
  assumes "is_control c"
  shows "map_of escape_table c \<noteq> None"
proof -
  from assms have "(of_char c :: nat) \<in> set [0..<32]" by (simp add: is_control_def)
  with control_table have "map_of escape_table (char_of (of_char c :: nat)) \<noteq> None"
    unfolding list_all_iff by blast
  then show ?thesis by simp
qed

lemma parse_chars_simple:
  "x \<noteq> CHR ''u'' \<Longrightarrow> simple_escape x = Some c \<Longrightarrow>
   parse_chars (CHR 0x5C # x # rest) = map_option (apfst ((#) c)) (parse_chars rest)"
  by simp

lemma parse_chars_unicode:
  "unicode_escape h3 h2 h1 h0 = Some c \<Longrightarrow>
   parse_chars (CHR 0x5C # CHR ''u'' # h3 # h2 # h1 # h0 # rest) =
     map_option (apfst ((#) c)) (parse_chars rest)"
  by simp

lemma decodes_cases:
  "decodes c e \<Longrightarrow>
     (\<exists>x. e = [CHR 0x5C, x] \<and> x \<noteq> CHR ''u'' \<and> simple_escape x = Some c)
   \<or> (\<exists>h3 h2 h1 h0. e = [CHR 0x5C, CHR ''u'', h3, h2, h1, h0] \<and> unicode_escape h3 h2 h1 h0 = Some c)"
  by (simp add: decodes_def split: list.splits)

lemma parse_chars_decodes:
  assumes "decodes c e"
  shows "parse_chars (e @ rest) = map_option (apfst ((#) c)) (parse_chars rest)"
  using decodes_cases [OF assms]
proof (elim disjE exE conjE)
  fix x assume "e = [CHR 0x5C, x]" "x \<noteq> CHR ''u''" "simple_escape x = Some c"
  then show ?thesis using parse_chars_simple [of x c rest] by simp
next
  fix h3 h2 h1 h0
  assume "e = [CHR 0x5C, CHR ''u'', h3, h2, h1, h0]" "unicode_escape h3 h2 h1 h0 = Some c"
  then show ?thesis using parse_chars_unicode [of h3 h2 h1 h0 c rest] by simp
qed

lemma escape_table_decodes: "list_all (\<lambda>(c, e). decodes c e) escape_table"
  by code_simp

lemma not_escaped:
  assumes "map_of escape_table c = None"
  shows "c \<noteq> CHR 0x22 \<and> c \<noteq> CHR 0x5C \<and> \<not> is_control c"
proof -
  from assms have "c \<noteq> CHR 0x22 \<and> c \<noteq> CHR 0x5C" by (auto simp: escape_table_def)
  moreover from assms have "\<not> is_control c" using control_in_table by blast
  ultimately show ?thesis by simp
qed

lemma parse_chars_escape:
  "parse_chars (json_escape c @ rest) = map_option (apfst ((#) c)) (parse_chars rest)"
proof (cases "map_of escape_table c")
  case None
  with not_escaped [OF None] show ?thesis by (simp add: json_escape_def)
next
  case (Some e)
  then have "(c, e) \<in> set escape_table" by (rule map_of_SomeD)
  with escape_table_decodes have "decodes c e" unfolding list_all_iff by blast
  with Some show ?thesis by (simp add: json_escape_def parse_chars_decodes)
qed

lemma parse_chars_end: "parse_chars (CHR 0x22 # rest) = Some ([], rest)"
  by simp

lemma parse_chars_quote:
  "parse_chars (concat (map json_escape s) @ CHR 0x22 # rest) = Some (s, rest)"
  by (induction s) (simp_all add: parse_chars_escape parse_chars_end del: parse_chars.simps(2))

lemma parse_value_stringify:
  "parse_value (stringify_value v @ rest) = Some (v, rest)"
  by (cases v) (simp_all add: parse_value_def quote_def parse_chars_quote del: parse_chars.simps(2))

lemma parse_member_stringify:
  "parse_member (stringify_member m @ rest) = Some (m, rest)"
  by (simp add: parse_member_def stringify_member_def quote_def parse_chars_quote
      parse_value_stringify del: parse_chars.simps(2))

lemma parse_members_join:
  "ms \<noteq> [] \<Longrightarrow> length ms \<le> n \<Longrightarrow>
   parse_members n (join '','' (map stringify_member ms) @ CHR ''}'' # rest) = Some (ms, rest)"
proof (induction ms arbitrary: n)
  case Nil
  then show ?case by simp
next
  case (Cons m ms)
  from Cons.prems obtain k where n: "n = Suc k" and k: "length ms \<le> k"
    by (cases n) auto
  show ?case
  proof (cases ms)
    case Nil
    then show ?thesis by (simp add: n parse_member_stringify)
  next
    case (Cons m' ms')
    with Cons.IH [of k] k
    have "parse_members k (join '','' (map stringify_member ms) @ CHR ''}'' # rest) = Some (ms, rest)"
      by simp
    with Cons show ?thesis by (simp add: n parse_member_stringify)
  qed
qed

lemma length_join_members: "length ms \<le> length (join sep (map stringify_member ms))"
proof (induction ms rule: induct_list012)
  case 1
  show ?case by simp
next
  case (2 m)
  show ?case by (simp add: stringify_member_def quote_def)
next
  case (3 m m' ms)
  have "1 \<le> length (stringify_member m)" by (simp add: stringify_member_def quote_def)
  with 3 show ?case by simp
qed

lemma hd_stringify_member: "\<exists>t. stringify_member m = CHR 0x22 # t"
  by (simp add: stringify_member_def quote_def)

lemma hd_join_members:
  "ms \<noteq> [] \<Longrightarrow> \<exists>t. join '','' (map stringify_member ms) = CHR 0x22 # t"
proof (induction ms rule: induct_list012)
  case 1
  then show ?case by simp
next
  case (2 m)
  show ?case using hd_stringify_member [of m] by simp
next
  case (3 m m' ms)
  show ?case using hd_stringify_member [of m] by auto
qed

lemma parse_object_stringify:
  "parse_object (stringify_object ms @ rest) = Some (ms, rest)"
proof (cases "ms = []")
  case True
  then show ?thesis by (simp add: parse_object_def stringify_object_def)
next
  case False
  from hd_join_members [OF False] obtain t where t: "join '','' (map stringify_member ms) = CHR 0x22 # t"
    by blast
  have l: "length ms \<le> length (stringify_object ms @ rest)"
    using length_join_members [of ms "'',''"] by (simp add: stringify_object_def)
  have "parse_object (stringify_object ms @ rest) =
          parse_members (length (stringify_object ms @ rest))
            (join '','' (map stringify_member ms) @ CHR ''}'' # rest)"
    by (simp add: parse_object_def stringify_object_def t)
  with parse_members_join [OF False l, of rest] show ?thesis by simp
qed

lemma parse_elements_join:
  "os \<noteq> [] \<Longrightarrow> length os \<le> n \<Longrightarrow>
   parse_elements n (join '','' (map stringify_object os) @ CHR '']'' # rest) = Some (os, rest)"
proof (induction os arbitrary: n)
  case Nil
  then show ?case by simp
next
  case (Cons obj os)
  from Cons.prems obtain k where n: "n = Suc k" and k: "length os \<le> k"
    by (cases n) auto
  show ?case
  proof (cases os)
    case Nil
    then show ?thesis by (simp add: n parse_object_stringify)
  next
    case (Cons o' os')
    with Cons.IH [of k] k
    have "parse_elements k (join '','' (map stringify_object os) @ CHR '']'' # rest) = Some (os, rest)"
      by simp
    with Cons show ?thesis by (simp add: n parse_object_stringify)
  qed
qed

lemma hd_stringify_object: "\<exists>t. stringify_object ms = CHR ''{'' # t"
  by (simp add: stringify_object_def)

lemma length_join_objects: "length os \<le> length (join sep (map stringify_object os))"
proof (induction os rule: induct_list012)
  case 1
  show ?case by simp
next
  case (2 m)
  show ?case by (simp add: stringify_object_def)
next
  case (3 m m' ms)
  have "1 \<le> length (stringify_object m)" by (simp add: stringify_object_def)
  with 3 show ?case by simp
qed

lemma hd_join_objects:
  "os \<noteq> [] \<Longrightarrow> \<exists>t. join '','' (map stringify_object os) = CHR ''{'' # t"
proof (induction os rule: induct_list012)
  case 1
  then show ?case by simp
next
  case (2 m)
  show ?case using hd_stringify_object [of m] by simp
next
  case (3 m m' ms)
  show ?case using hd_stringify_object [of m] by auto
qed

lemma parse_array_stringify:
  "parse_array (stringify_array os @ rest) = Some (os, rest)"
proof (cases "os = []")
  case True
  then show ?thesis by (simp add: parse_array_def stringify_array_def)
next
  case False
  from hd_join_objects [OF False] obtain t where t: "join '','' (map stringify_object os) = CHR ''{'' # t"
    by blast
  have l: "length os \<le> length (stringify_array os @ rest)"
    using length_join_objects [of os "'',''"] by (simp add: stringify_array_def)
  have "parse_array (stringify_array os @ rest) =
          parse_elements (length (stringify_array os @ rest))
            (join '','' (map stringify_object os) @ CHR '']'' # rest)"
    by (simp add: parse_array_def stringify_array_def t)
  with parse_elements_join [OF False l, of rest] show ?thesis by simp
qed

lemma item_of_serialized: "item_of (serialized item) = Some item"
  by (simp add: item_of_def serialized_def property_def)

lemma JSON_parse_object_stringify: "JSON_parse_object (stringify_object ms) = Some ms"
  using parse_object_stringify [of ms "[]"] by (simp add: JSON_parse_object_def)

lemma JSON_parse_array_stringify: "JSON_parse_array (stringify_array os) = Some os"
  using parse_array_stringify [of os "[]"] by (simp add: JSON_parse_array_def)

text \<open>
  C9. An item that is serialized and then deserialized is the item again, field for
  field, whatever its strings and its flag are; a list of items that is serialized and
  then deserialized is the same list, with the same length and the same items in the
  same order.
\<close>

theorem serialization_round_trip:
  "deserializeItem (serializeItem item) = Some item
   \<and> deserializeItems (serializeItems items) = Some items"
proof -
  have a: "deserializeItem (serializeItem item) = Some item"
    by (simp add: deserializeItem_def serializeItem_def JSON_parse_object_stringify
        item_of_serialized)
  have "map (\<lambda>obj. the (item_of obj)) (map serialized items) = items"
    by (induction items) (simp_all add: item_of_serialized)
  then have "deserializeItems (serializeItems items) = Some items"
    by (simp add: deserializeItems_def serializeItems_def JSON_parse_array_stringify
        list_all_iff item_of_serialized)
  with a show ?thesis by simp
qed

theorem serialization_round_trip_witness:
  "deserializeItem (serializeItem milk) = Some milk
   \<and> deserializeItems (serializeItems [milk, chips]) = Some [milk, chips]"
  using serialization_round_trip [of milk "[milk, chips]"] by simp

end
